theory Spec2Isabelle
  imports Complex_Main
begin

section \<open>JavaScript values\<close>

text \<open>
  The codec of \<^verbatim>\<open>src/milvus/grpc/Data.ts\<close> works on untyped JavaScript values: rows are
  objects, vectors are arrays, a missing property reads as \<^verbatim>\<open>undefined\<close>. The model keeps
  that: a number is \<^verbatim>\<open>NaN\<close> or a finite value (a double is a rational; the only arithmetic
  of the codec is a division by 8 and an addition of indices, both exact), an object is
  the list of its properties in enumeration order.
\<close>

datatype jsnum = NaN | Fin rat

datatype jsval =
    JUndefined
  | JNull
  | JBool bool
  | JNumber jsnum
  | JString string
  | JArray "jsval list"
  | JObject "(string \<times> jsval) list"
  | JBuffer string

datatype error =
    INSERT_CHECK_FIELD_DATA_IS_REQUIRED
  | StatusReason string
  | INSERT_CHECK_WRONG_FIELD nat
  | INSERT_CHECK_WRONG_DIM
  | INSERT_CHECK_WRONG_DATA_TYPE string
  | TypeError
  | SyntaxError

text \<open>\<^verbatim>\<open>!x\<close> is true for \<^verbatim>\<open>undefined\<close>, \<^verbatim>\<open>null\<close>, \<^verbatim>\<open>false\<close>, \<^verbatim>\<open>0\<close>, \<^verbatim>\<open>NaN\<close> and the empty string.\<close>

fun truthy :: "jsval \<Rightarrow> bool" where
  "truthy JUndefined = False"
| "truthy JNull = False"
| "truthy (JBool b) = b"
| "truthy (JNumber NaN) = False"
| "truthy (JNumber (Fin r)) = (r \<noteq> 0)"
| "truthy (JString s) = (s \<noteq> [])"
| "truthy (JArray xs) = True"
| "truthy (JObject ps) = True"
| "truthy (JBuffer b) = True"

text \<open>\<^verbatim>\<open>a || b\<close> and \<^verbatim>\<open>a ?? b\<close>.\<close>

definition js_or :: "jsval \<Rightarrow> jsval \<Rightarrow> jsval" where
  "js_or a b = (if truthy a then a else b)"

fun nullish :: "jsval \<Rightarrow> bool" where
  "nullish JUndefined = True"
| "nullish JNull = True"
| "nullish v = False"

definition coalesce :: "jsval \<Rightarrow> jsval \<Rightarrow> jsval" where
  "coalesce a b = (if nullish a then b else a)"

text \<open>\<^verbatim>\<open>obj[key]\<close>: a property that is not there reads as \<^verbatim>\<open>undefined\<close>.\<close>

definition get_prop :: "(string \<times> jsval) list \<Rightarrow> string \<Rightarrow> jsval" where
  "get_prop obj key = (case map_of obj key of None \<Rightarrow> JUndefined | Some v \<Rightarrow> v)"

text \<open>\<^verbatim>\<open>obj?.key\<close> on an object that may be \<^verbatim>\<open>undefined\<close> or \<^verbatim>\<open>null\<close> (\<open>None\<close>).\<close>

definition opt_prop :: "(string \<times> jsval) list option \<Rightarrow> string \<Rightarrow> jsval" where
  "opt_prop obj key = (case obj of None \<Rightarrow> JUndefined | Some ps \<Rightarrow> get_prop ps key)"

text \<open>
  \<^verbatim>\<open>obj[key] = v\<close>, also \<^verbatim>\<open>Map.prototype.set\<close>: an existing key keeps its place and takes
  the new value, a new key goes last.
\<close>

fun assign :: "(string \<times> 'a) list \<Rightarrow> string \<Rightarrow> 'a \<Rightarrow> (string \<times> 'a) list" where
  "assign [] k v = [(k, v)]"
| "assign ((k', v') # m) k v = (if k' = k then (k, v) # m else (k', v') # assign m k v)"

text \<open>\<^verbatim>\<open>arr[i]\<close> on an array: out of range reads as \<^verbatim>\<open>undefined\<close>.\<close>

definition elem :: "jsval list \<Rightarrow> nat \<Rightarrow> jsval" where
  "elem xs i = (if i < length xs then xs ! i else JUndefined)"

section \<open>Search result decoding\<close>

text \<open>
  Modelled from the spec: \<^verbatim>\<open>formatNumberPrecision\<close> is imported from \<^verbatim>\<open>'../'\<close> and is not
  under \<^verbatim>\<open>src/\<close>. The spec (4.5) says of it "round to that many decimal digits" and that
  the decoder "must truncate/round"; the comment at lines 356-361 of the source says that
  the score is sliced by \<^verbatim>\<open>round_decimal\<close>, 3.142000047683716 becoming 3.142. For a finite
  score and a natural number \<open>d\<close> of digits, \<open>slice_digits\<close> is what the helper is taken to
  return: the score with its decimal expansion cut after \<open>d\<close> digits. Of any other
  precision the spec says nothing, and the decoder below takes the helper itself as its
  parameter \<open>format\<close>.
\<close>

definition slice_digits :: "rat \<Rightarrow> nat \<Rightarrow> rat" where
  "slice_digits x d = sgn x * of_int \<lfloor>\<bar>x\<bar> * 10 ^ d\<rfloor> / 10 ^ d"

text \<open>
  Lines 436-439: \<^verbatim>\<open>typeof round_decimal === 'undefined' || round_decimal === -1 ? score :
  formatNumberPrecision(score, round_decimal)\<close>.
\<close>

definition fixedScore :: "(jsnum \<Rightarrow> jsval \<Rightarrow> jsnum) \<Rightarrow> jsval \<Rightarrow> jsnum \<Rightarrow> jsnum" where
  "fixedScore format round_decimal score =
     (if round_decimal = JUndefined then score
      else if round_decimal = JNumber (Fin (- 1)) then score
      else format score round_decimal)"

text \<open>
  One column of \<^verbatim>\<open>fieldsData\<close> (lines 414-422): the wire type name, the field name and
  the data array; \<open>None\<close> is the empty string the code puts there when the wire column
  carries no value, and every index of it reads as \<^verbatim>\<open>undefined\<close>.
\<close>

record column =
  col_type :: string
  field_name :: string
  col_data :: "jsval list option"

definition col_elem :: "column \<Rightarrow> nat \<Rightarrow> jsval" where
  "col_elem field i = (case col_data field of None \<Rightarrow> JUndefined | Some xs \<Rightarrow> elem xs i)"

text \<open>
  Lines 445-457, \<^verbatim>\<open>fieldsData.forEach\<close>: every column writes its entry \<open>i\<close> under its field
  name. A JSON column calls \<^verbatim>\<open>field.data[i].toString()\<close>, a TypeError on \<^verbatim>\<open>undefined\<close> and
  \<^verbatim>\<open>null\<close>, and \<^verbatim>\<open>JSON.parse\<close>, a SyntaxError on malformed text; \<open>parse\<close> stands for
  \<^verbatim>\<open>JSON.parse(x.toString())\<close>, \<open>None\<close> for its SyntaxError.
\<close>

fun project_fields ::
  "(jsval \<Rightarrow> jsval option) \<Rightarrow> column list \<Rightarrow> nat \<Rightarrow> (string \<times> jsval) list
    \<Rightarrow> error + (string \<times> jsval) list" where
  "project_fields parse [] i result = Inr result"
| "project_fields parse (field # rest) i result =
     (if col_type field = ''JSON'' then
        (if nullish (col_elem field i) then Inl TypeError
         else (case parse (col_elem field i) of
                 None \<Rightarrow> Inl SyntaxError
               | Some v \<Rightarrow> project_fields parse rest i (assign result (field_name field) v)))
      else project_fields parse rest i (assign result (field_name field) (col_elem field i)))"

text \<open>Line 435: \<^verbatim>\<open>const i = index === 0 ? scoreIndex : scoreIndex + topk\<close>.\<close>

definition entry_index :: "nat \<Rightarrow> nat \<Rightarrow> nat \<Rightarrow> nat" where
  "entry_index index scoreIndex topk = (if index = 0 then scoreIndex else scoreIndex + topk)"

text \<open>Lines 441-444: the row starts as \<^verbatim>\<open>{score: fixedScore, id: idData ? idData[i] : ''}\<close>.\<close>

definition new_result ::
  "(jsnum \<Rightarrow> jsval \<Rightarrow> jsnum) \<Rightarrow> jsval \<Rightarrow> jsval list option \<Rightarrow> nat \<Rightarrow> jsnum
    \<Rightarrow> (string \<times> jsval) list" where
  "new_result format round_decimal idData i score =
     [(''score'', JNumber (fixedScore format round_decimal score)),
      (''id'', (case idData of None \<Rightarrow> JString [] | Some ids \<Rightarrow> elem ids i))]"

text \<open>
  Lines 434-459, the inner \<^verbatim>\<open>forEach\<close> over the scores spliced off for query \<open>index\<close>;
  \<open>scoreIndex\<close> counts them from 0.
\<close>

fun decode_scores ::
  "(jsnum \<Rightarrow> jsval \<Rightarrow> jsnum) \<Rightarrow> (jsval \<Rightarrow> jsval option) \<Rightarrow> jsval \<Rightarrow> column list \<Rightarrow> jsval list option \<Rightarrow> nat \<Rightarrow> nat
    \<Rightarrow> jsnum list \<Rightarrow> nat \<Rightarrow> (string \<times> jsval) list list \<Rightarrow> error + (string \<times> jsval) list list" where
  "decode_scores format parse round_decimal fieldsData idData index topk [] scoreIndex results =
     Inr results"
| "decode_scores format parse round_decimal fieldsData idData index topk (score # rest) scoreIndex results =
     (case project_fields parse fieldsData (entry_index index scoreIndex topk)
             (new_result format round_decimal idData (entry_index index scoreIndex topk) score) of
        Inl e \<Rightarrow> Inl e
      | Inr result \<Rightarrow>
          decode_scores format parse round_decimal fieldsData idData index topk rest (Suc scoreIndex)
            (results @ [result]))"

text \<open>
  Lines 431-460, the outer \<^verbatim>\<open>topks.forEach\<close>: \<^verbatim>\<open>scores.splice(0, topk)\<close> takes the next
  \<open>topk\<close> scores off the front of the array and leaves the rest for the next query. The
  counts of the wire are natural numbers.
\<close>

fun decode_topks ::
  "(jsnum \<Rightarrow> jsval \<Rightarrow> jsnum) \<Rightarrow> (jsval \<Rightarrow> jsval option) \<Rightarrow> jsval \<Rightarrow> column list \<Rightarrow> jsval list option \<Rightarrow> nat list \<Rightarrow> nat
    \<Rightarrow> jsnum list \<Rightarrow> (string \<times> jsval) list list \<Rightarrow> error + (string \<times> jsval) list list" where
  "decode_topks format parse round_decimal fieldsData idData [] index scores results = Inr results"
| "decode_topks format parse round_decimal fieldsData idData (topk # rest) index scores results =
     (case decode_scores format parse round_decimal fieldsData idData index topk (take topk scores) 0
             results of
        Inl e \<Rightarrow> Inl e
      | Inr results' \<Rightarrow>
          decode_topks format parse round_decimal fieldsData idData rest (Suc index) (drop topk scores)
            results')"

text \<open>Lines 404-461: the rows of one response, starting from \<^verbatim>\<open>results = []\<close>.\<close>

definition search_results ::
  "(jsnum \<Rightarrow> jsval \<Rightarrow> jsnum) \<Rightarrow> (jsval \<Rightarrow> jsval option) \<Rightarrow> jsval \<Rightarrow> column list \<Rightarrow> jsval list option \<Rightarrow> nat list
    \<Rightarrow> jsnum list \<Rightarrow> error + (string \<times> jsval) list list" where
  "search_results format parse round_decimal fieldsData idData topks scores =
     decode_topks format parse round_decimal fieldsData idData topks 0 scores []"

section \<open>What the code imports\<close>

text \<open>
  \<^verbatim>\<open>Data.ts\<close> imports the enum \<^verbatim>\<open>DataType\<close>, the table \<^verbatim>\<open>DataTypeMap\<close> from the type names of
  the wire to that enum, and the constants \<^verbatim>\<open>DEFAULT_TOPK\<close> and \<^verbatim>\<open>DEFAULT_METRIC_TYPE\<close> from
  \<^verbatim>\<open>'../'\<close>; none of them is under \<^verbatim>\<open>src/\<close>. The enum has the members the code names and
  possibly others; the table and the constants are parameters of the model, with the
  built-ins \<^verbatim>\<open>Number\<close> (on a string) and \<^verbatim>\<open>JSON.stringify\<close>.
\<close>

datatype DataType =
    Bool | Int8 | Int16 | Int32 | Int64 | Float | Double | VarChar | JSON
  | BinaryVector | FloatVector | OtherDataType nat

record externals =
  DataTypeMap :: "string \<Rightarrow> DataType option"
  Number_of_string :: "string \<Rightarrow> jsnum"
  JSON_stringify :: "jsval \<Rightarrow> string"
  DEFAULT_TOPK :: jsval
  DEFAULT_METRIC_TYPE :: jsval

text \<open>
  Modelled from the spec: \<^verbatim>\<open>findKeyValue\<close> is imported from \<^verbatim>\<open>'../'\<close> and is not under
  \<^verbatim>\<open>src/\<close>. The spec speaks of a field's "type parameters including vector dimension" and
  of a field that "is missing a dimension parameter": the helper looks a key up in the
  key-value pairs and yields \<^verbatim>\<open>undefined\<close> (\<open>None\<close>) when no pair has the key.
\<close>

definition findKeyValue :: "(string \<times> string) list \<Rightarrow> string \<Rightarrow> string option" where
  "findKeyValue obj key = map_of obj key"

text \<open>\<^verbatim>\<open>Number(x)\<close> for a string or \<^verbatim>\<open>undefined\<close>: \<^verbatim>\<open>Number(undefined)\<close> is \<^verbatim>\<open>NaN\<close>.\<close>

definition Number :: "externals \<Rightarrow> string option \<Rightarrow> jsnum" where
  "Number X x = (case x of None \<Rightarrow> NaN | Some s \<Rightarrow> Number_of_string X s)"

text \<open>The field schema that \<^verbatim>\<open>describeCollection\<close> returns, and its status.\<close>

record FieldSchema =
  name :: string
  data_type :: string
  type_params :: "(string \<times> string) list"
  is_primary_key :: bool
  autoID :: bool

datatype ErrorCode = SUCCESS | OtherErrorCode nat

record DescribeCollectionResponse =
  error_code :: ErrorCode
  reason :: string
  schema_fields :: "FieldSchema list"

section \<open>Insert: rows to columns\<close>

text \<open>
  Lines 103-115: the \<^verbatim>\<open>Map\<close> from field name to \<^verbatim>\<open>{name, type, dim, value}\<close>, one entry for
  every schema field that is not an auto-generated primary key. \<^verbatim>\<open>value\<close> is the column
  under construction; \<open>None\<close> in it is a hole of the JavaScript array.
\<close>

record target =
  target_name :: string
  target_type :: string
  target_dim :: jsnum
  target_value :: "jsval option list"

definition new_target :: "externals \<Rightarrow> FieldSchema \<Rightarrow> target" where
  "new_target X v =
     \<lparr>target_name = name v, target_type = data_type v,
      target_dim = Number X (findKeyValue (type_params v) ''dim''), target_value = []\<rparr>"

definition fieldsData_of :: "externals \<Rightarrow> FieldSchema list \<Rightarrow> (string \<times> target) list" where
  "fieldsData_of X schema =
     foldl (\<lambda>m v. assign m (name v) (new_target X v)) []
       (filter (\<lambda>v. \<not> is_primary_key v \<or> \<not> autoID v) schema)"

text \<open>
  \<^verbatim>\<open>x.length\<close>: a TypeError on \<^verbatim>\<open>undefined\<close> and \<^verbatim>\<open>null\<close>, the length of an array, a string or
  a buffer, the property of that name of an object, \<^verbatim>\<open>undefined\<close> on a number or a boolean.
\<close>

fun js_length :: "jsval \<Rightarrow> error + jsval" where
  "js_length JUndefined = Inl TypeError"
| "js_length JNull = Inl TypeError"
| "js_length (JArray xs) = Inr (JNumber (Fin (of_nat (length xs))))"
| "js_length (JString s) = Inr (JNumber (Fin (of_nat (length s))))"
| "js_length (JBuffer b) = Inr (JNumber (Fin (of_nat (length b))))"
| "js_length (JObject ps) = Inr (get_prop ps ''length'')"
| "js_length (JBool b) = Inr JUndefined"
| "js_length (JNumber n) = Inr JUndefined"

text \<open>\<^verbatim>\<open>x !== n\<close> for a number \<open>n\<close>: false only when \<open>x\<close> is the same number; \<^verbatim>\<open>NaN !== NaN\<close>.\<close>

fun strict_ne :: "jsval \<Rightarrow> jsnum \<Rightarrow> bool" where
  "strict_ne (JNumber (Fin a)) (Fin b) = (a \<noteq> b)"
| "strict_ne x n = True"

text \<open>\<^verbatim>\<open>n / 8\<close>.\<close>

fun div8 :: "jsnum \<Rightarrow> jsnum" where
  "div8 NaN = NaN"
| "div8 (Fin r) = Fin (r / 8)"

text \<open>\<^verbatim>\<open>for (let val of x)\<close>: the elements of an iterable, a TypeError on anything else.\<close>

fun js_iterate :: "jsval \<Rightarrow> error + jsval list" where
  "js_iterate (JArray xs) = Inr xs"
| "js_iterate (JString s) = Inr (map (\<lambda>c. JString [c]) s)"
| "js_iterate (JBuffer b) = Inr (map (\<lambda>c. JNumber (Fin (of_nat (of_char c)))) b)"
| "js_iterate x = Inl TypeError"

text \<open>\<^verbatim>\<open>arr[i] = x\<close> on an array: past the end, the array grows and the gap is holes.\<close>

definition set_index :: "'a option list \<Rightarrow> nat \<Rightarrow> 'a \<Rightarrow> 'a option list" where
  "set_index arr i x =
     (if i < length arr then arr[i := Some x]
      else arr @ replicate (i - length arr) None @ [Some x])"

text \<open>Lines 128-133: the length check, made for a binary vector field only.\<close>

definition check_dim :: "externals \<Rightarrow> target \<Rightarrow> jsval \<Rightarrow> error option" where
  "check_dim X t x =
     (if DataTypeMap X (target_type t) = Some BinaryVector then
        (case js_length x of
           Inl e \<Rightarrow> Some e
         | Inr len \<Rightarrow>
             if strict_ne len (div8 (target_dim t)) then Some INSERT_CHECK_WRONG_DIM else None)
      else None)"

text \<open>
  Lines 135-150, \<^verbatim>\<open>switch (DataTypeMap[target.type])\<close>: a vector field pushes every element
  of the value, a JSON field stores the buffer of \<^verbatim>\<open>JSON.stringify(v[name] || {})\<close> at the row
  index, any other field stores the value at the row index.
\<close>

definition encode_value :: "externals \<Rightarrow> target \<Rightarrow> nat \<Rightarrow> jsval \<Rightarrow> error + target" where
  "encode_value X t i x =
     (if DataTypeMap X (target_type t) = Some BinaryVector
         \<or> DataTypeMap X (target_type t) = Some FloatVector then
        (case js_iterate x of
           Inl e \<Rightarrow> Inl e
         | Inr vals \<Rightarrow> Inr (t\<lparr>target_value := target_value t @ map Some vals\<rparr>))
      else if DataTypeMap X (target_type t) = Some JSON then
        Inr (t\<lparr>target_value :=
               set_index (target_value t) i (JBuffer (JSON_stringify X (js_or x (JObject []))))\<rparr>)
      else Inr (t\<lparr>target_value := set_index (target_value t) i x\<rparr>))"

text \<open>
  Lines 124-150, the body of \<^verbatim>\<open>fieldNames.forEach\<close> for row \<open>v\<close> of index \<open>i\<close> and one of its
  keys. The target is an object of the \<^verbatim>\<open>Map\<close>, mutated in place.
\<close>

definition encode_field ::
  "externals \<Rightarrow> (string \<times> jsval) list \<Rightarrow> nat \<Rightarrow> (string \<times> target) list \<Rightarrow> string
    \<Rightarrow> error + (string \<times> target) list" where
  "encode_field X v i fieldsData fname =
     (case map_of fieldsData fname of
        None \<Rightarrow> Inl (INSERT_CHECK_WRONG_FIELD i)
      | Some t \<Rightarrow>
          (case check_dim X t (get_prop v fname) of
             Some e \<Rightarrow> Inl e
           | None \<Rightarrow>
               (case encode_value X t i (get_prop v fname) of
                  Inl e \<Rightarrow> Inl e
                | Inr t' \<Rightarrow> Inr (assign fieldsData fname t'))))"

fun encode_row ::
  "externals \<Rightarrow> (string \<times> jsval) list \<Rightarrow> nat \<Rightarrow> string list \<Rightarrow> (string \<times> target) list
    \<Rightarrow> error + (string \<times> target) list" where
  "encode_row X v i [] fieldsData = Inr fieldsData"
| "encode_row X v i (fname # fieldNames) fieldsData =
     (case encode_field X v i fieldsData fname of
        Inl e \<Rightarrow> Inl e
      | Inr fieldsData' \<Rightarrow> encode_row X v i fieldNames fieldsData')"

text \<open>Lines 121-152, \<^verbatim>\<open>data.fields_data.forEach((v, i) => ...)\<close> over \<^verbatim>\<open>Object.keys(v)\<close>.\<close>

fun encode_rows ::
  "externals \<Rightarrow> (string \<times> jsval) list list \<Rightarrow> nat \<Rightarrow> (string \<times> target) list
    \<Rightarrow> error + (string \<times> target) list" where
  "encode_rows X [] i fieldsData = Inr fieldsData"
| "encode_rows X (v # rows) i fieldsData =
     (case encode_row X v i (map fst v) fieldsData of
        Inl e \<Rightarrow> Inl e
      | Inr fieldsData' \<Rightarrow> encode_rows X rows (Suc i) fieldsData')"

text \<open>
  Lines 154-217: one wire field per entry of the \<^verbatim>\<open>Map\<close>, in its order. The payload is
  named by \<^verbatim>\<open>dataKey\<close>; \<^verbatim>\<open>binary_vector\<close> holds the column that the imported packer
  \<^verbatim>\<open>parseBinaryVectorToBytes\<close> is applied to.
\<close>

fun dataKey_of :: "DataType option \<Rightarrow> string option" where
  "dataKey_of (Some FloatVector) = Some ''float_vector''"
| "dataKey_of (Some BinaryVector) = Some ''binary_vector''"
| "dataKey_of (Some Double) = Some ''double_data''"
| "dataKey_of (Some Float) = Some ''float_data''"
| "dataKey_of (Some Int64) = Some ''long_data''"
| "dataKey_of (Some Int32) = Some ''int_data''"
| "dataKey_of (Some Int16) = Some ''int_data''"
| "dataKey_of (Some Int8) = Some ''int_data''"
| "dataKey_of (Some Bool) = Some ''bool_data''"
| "dataKey_of (Some VarChar) = Some ''string_data''"
| "dataKey_of (Some JSON) = Some ''json_data''"
| "dataKey_of t = None"

datatype payload =
    float_vector jsnum "jsval option list"
  | binary_vector jsnum "jsval option list"
  | scalars string "jsval option list"

record wire_field =
  wire_type :: "DataType option"
  wire_field_name :: string
  wire_payload :: payload

definition wire_field_of :: "externals \<Rightarrow> target \<Rightarrow> error + wire_field" where
  "wire_field_of X v =
     (case dataKey_of (DataTypeMap X (target_type v)) of
        None \<Rightarrow> Inl (INSERT_CHECK_WRONG_DATA_TYPE (target_type v))
      | Some dataKey \<Rightarrow>
          Inr \<lparr>wire_type = DataTypeMap X (target_type v), wire_field_name = target_name v,
               wire_payload =
                 (if DataTypeMap X (target_type v) = Some FloatVector
                    then float_vector (target_dim v) (target_value v)
                  else if DataTypeMap X (target_type v) = Some BinaryVector
                    then binary_vector (target_dim v) (target_value v)
                  else scalars dataKey (target_value v))\<rparr>)"

fun wire_fields :: "externals \<Rightarrow> target list \<Rightarrow> error + wire_field list" where
  "wire_fields X [] = Inr []"
| "wire_fields X (v # vs) =
     (case wire_field_of X v of
        Inl e \<Rightarrow> Inl e
      | Inr w \<Rightarrow> (case wire_fields X vs of Inl e \<Rightarrow> Inl e | Inr ws \<Rightarrow> Inr (w # ws)))"

text \<open>
  Lines 85-226 of \<^verbatim>\<open>insert\<close> (\<open>insert\<close> being a constant of HOL, the model is
  \<open>insert_rows\<close>), after \<^verbatim>\<open>checkCollectionName(data)\<close> has passed: \<open>Inl\<close> is the
  error thrown, \<open>Inr\<close> holds \<^verbatim>\<open>num_rows\<close> and \<^verbatim>\<open>fields_data\<close> of the parameters that the one
  \<^verbatim>\<open>Insert\<close> call of line 219 is made with. Nothing else calls \<^verbatim>\<open>Insert\<close>.
\<close>

record InsertParams =
  num_rows :: nat
  fields_data :: "wire_field list"

definition insert_rows ::
  "externals \<Rightarrow> DescribeCollectionResponse \<Rightarrow> (string \<times> jsval) list list \<Rightarrow> error + InsertParams" where
  "insert_rows X collectionInfo rows =
     (if rows = [] then Inl INSERT_CHECK_FIELD_DATA_IS_REQUIRED
      else if error_code collectionInfo \<noteq> SUCCESS then Inl (StatusReason (reason collectionInfo))
      else
        (case encode_rows X rows 0 (fieldsData_of X (schema_fields collectionInfo)) of
           Inl e \<Rightarrow> Inl e
         | Inr fieldsData \<Rightarrow>
             (case wire_fields X (map snd fieldsData) of
                Inl e \<Rightarrow> Inl e
              | Inr ws \<Rightarrow> Inr \<lparr>num_rows = length rows, fields_data = ws\<rparr>)))"

text \<open>
  A row \<open>v\<close> holds, under the key \<open>k\<close>, a value for a binary vector field of the \<^verbatim>\<open>Map\<close>
  whose \<^verbatim>\<open>length\<close> is not the field's \<^verbatim>\<open>dim / 8\<close>.
\<close>

definition length_mismatch ::
  "externals \<Rightarrow> (string \<times> target) list \<Rightarrow> (string \<times> jsval) list \<Rightarrow> string \<Rightarrow> bool" where
  "length_mismatch X fieldsData v k =
     (case map_of fieldsData k of
        None \<Rightarrow> False
      | Some t \<Rightarrow>
          DataTypeMap X (target_type t) = Some BinaryVector
          \<and> (case js_length (get_prop v k) of
                Inl e \<Rightarrow> False
              | Inr len \<Rightarrow> strict_ne len (div8 (target_dim t))))"

section \<open>Search: the request\<close>

text \<open>
  Lines 314-336: the loop over \<^verbatim>\<open>collectionInfo.schema.fields\<close>. It starts from
  \<^verbatim>\<open>vectorType\<close> and \<^verbatim>\<open>anns_field\<close> undefined (\<open>None\<close>), \<^verbatim>\<open>dim = 0\<close> and no output field;
  every vector field assigns \<^verbatim>\<open>dim\<close>, \<^verbatim>\<open>anns_field\<close> and \<^verbatim>\<open>vectorType\<close>, every other field is
  pushed to \<^verbatim>\<open>defaultOutputFields\<close>.
\<close>

record classified =
  vectorType :: "DataType option"
  defaultOutputFields :: "string list"
  dim :: jsnum
  anns_field :: "string option"

definition is_vector :: "externals \<Rightarrow> FieldSchema \<Rightarrow> bool" where
  "is_vector X f =
     (DataTypeMap X (data_type f) = Some FloatVector \<or> DataTypeMap X (data_type f) = Some BinaryVector)"

definition field_dim :: "externals \<Rightarrow> FieldSchema \<Rightarrow> jsnum" where
  "field_dim X f =
     (if DataTypeMap X (data_type f) = Some BinaryVector
      then div8 (Number X (findKeyValue (type_params f) ''dim''))
      else Number X (findKeyValue (type_params f) ''dim''))"

definition classify_field :: "externals \<Rightarrow> classified \<Rightarrow> FieldSchema \<Rightarrow> classified" where
  "classify_field X st f =
     (if is_vector X f then
        st\<lparr>dim := field_dim X f, anns_field := Some (name f),
           vectorType := DataTypeMap X (data_type f)\<rparr>
      else st\<lparr>defaultOutputFields := defaultOutputFields st @ [name f]\<rparr>)"

definition classify :: "externals \<Rightarrow> FieldSchema list \<Rightarrow> classified" where
  "classify X schema =
     foldl (classify_field X)
       \<lparr>vectorType = None, defaultOutputFields = [], dim = Fin 0, anns_field = None\<rparr> schema"

text \<open>
  The request \<^verbatim>\<open>data\<close>, of the explicit shape (\<^verbatim>\<open>search_params\<close>, \<^verbatim>\<open>vectors\<close>, \<^verbatim>\<open>nq\<close>, \<^verbatim>\<open>expr\<close>) or
  the simple one (\<^verbatim>\<open>vector\<close>, \<^verbatim>\<open>limit\<close>, \<^verbatim>\<open>topk\<close>, \<^verbatim>\<open>offset\<close>, \<^verbatim>\<open>metric_type\<close>, \<^verbatim>\<open>params\<close>,
  \<^verbatim>\<open>filter\<close>). An object or array that is \<^verbatim>\<open>undefined\<close> or \<^verbatim>\<open>null\<close> is \<open>None\<close>.
\<close>

record SearchData =
  collection_name :: string
  partition_names :: jsval
  output_fields :: "string list option"
  search_params :: "(string \<times> jsval) list option"
  vectors :: "jsval list option"
  vector :: jsval
  nq :: jsval
  expr :: jsval
  filter_expr :: jsval
  limit :: jsval
  topk :: jsval
  offset :: jsval
  metric_type :: jsval
  params :: "(string \<times> jsval) list option"

text \<open>Lines 339-349: \<^verbatim>\<open>data.search_params || {anns_field, topk, offset, metric_type, params}\<close>.\<close>

definition search_params_of ::
  "externals \<Rightarrow> classified \<Rightarrow> SearchData \<Rightarrow> (string \<times> jsval) list" where
  "search_params_of X c data =
     (case search_params data of
        Some sp \<Rightarrow> sp
      | None \<Rightarrow>
          [(''anns_field'', (case anns_field c of None \<Rightarrow> JUndefined | Some n \<Rightarrow> JString n)),
           (''topk'', js_or (js_or (limit data) (topk data)) (DEFAULT_TOPK X)),
           (''offset'', js_or (offset data) (JNumber (Fin 0))),
           (''metric_type'', js_or (metric_type data) (DEFAULT_METRIC_TYPE X)),
           (''params'',
            JString (JSON_stringify X
              (JObject (case params data of None \<Rightarrow> [] | Some ps \<Rightarrow> ps))))])"

text \<open>Lines 352-354: \<^verbatim>\<open>data.vectors || [data.vector]\<close>.\<close>

definition searchVectors :: "SearchData \<Rightarrow> jsval list" where
  "searchVectors data = (case vectors data of Some vs \<Rightarrow> vs | None \<Rightarrow> [vector data])"

text \<open>
  Lines 362-364: \<^verbatim>\<open>data.search_params?.round_decimal ?? data.params?.round_decimal\<close>.
\<close>

definition round_decimal_of :: "SearchData \<Rightarrow> jsval" where
  "round_decimal_of data =
     coalesce (opt_prop (search_params data) ''round_decimal'')
       (opt_prop (params data) ''round_decimal'')"

text \<open>
  Lines 366-402: the placeholder group and the parameters of the \<^verbatim>\<open>Search\<close> call. The
  packers \<^verbatim>\<open>parseBinaryVectorToBytes\<close> and \<^verbatim>\<open>parseFloatVectorToBytes\<close> are imported; a value
  of the placeholder records which of them is applied to which query vector.
\<close>

datatype packed = parseBinaryVectorToBytes jsval | parseFloatVectorToBytes jsval

record SearchRequest =
  req_collection_name :: string
  req_partition_names :: jsval
  req_output_fields :: "string list"
  req_nq :: jsval
  req_dsl :: jsval
  placeholder_tag :: string
  placeholder_type :: "DataType option"
  placeholder_values :: "packed list"
  req_search_params :: "(string \<times> jsval) list"

definition search_request :: "externals \<Rightarrow> FieldSchema list \<Rightarrow> SearchData \<Rightarrow> SearchRequest" where
  "search_request X schema data =
     \<lparr>req_collection_name = collection_name data,
      req_partition_names = partition_names data,
      req_output_fields =
        (case output_fields data of
           Some fs \<Rightarrow> fs
         | None \<Rightarrow> defaultOutputFields (classify X schema)),
      req_nq = js_or (nq data) (JNumber (Fin (of_nat (length (searchVectors data))))),
      req_dsl = js_or (js_or (expr data) (filter_expr data)) (JString []),
      placeholder_tag = ''$0'',
      placeholder_type = vectorType (classify X schema),
      placeholder_values =
        map (\<lambda>v. if vectorType (classify X schema) = Some BinaryVector
                 then parseBinaryVectorToBytes v else parseFloatVectorToBytes v)
          (searchVectors data),
      req_search_params = search_params_of X (classify X schema) data\<rparr>"

text \<open>
  The \<^verbatim>\<open>results\<close> of a \<^verbatim>\<open>Search\<close> response, with \<^verbatim>\<open>fields_data\<close> and \<^verbatim>\<open>ids\<close> as lines 413-424
  read them: the columns, and the id array (\<open>None\<close> when the response has none).
\<close>

record SearchResultData =
  res_topks :: "nat list"
  res_scores :: "jsnum list"
  res_fields_data :: "column list"
  res_ids :: "jsval list option"

text \<open>
  Lines 307-470 of \<^verbatim>\<open>search\<close>, after \<^verbatim>\<open>checkSearchParams(data)\<close> has passed and
  \<^verbatim>\<open>describeCollection\<close> has returned the schema: the body builds the request, makes the
  \<^verbatim>\<open>Search\<close> call (\<open>rpc\<close>, whose answer is \<^verbatim>\<open>promise.results\<close>) and decodes the answer. The
  result is the request sent and the rows or the error thrown; the body has no \<^verbatim>\<open>throw\<close> of
  its own before the call.
\<close>

definition search ::
  "externals \<Rightarrow> (jsnum \<Rightarrow> jsval \<Rightarrow> jsnum) \<Rightarrow> (jsval \<Rightarrow> jsval option) \<Rightarrow> (SearchRequest \<Rightarrow> SearchResultData option)
    \<Rightarrow> FieldSchema list \<Rightarrow> SearchData \<Rightarrow> SearchRequest \<times> (error + (string \<times> jsval) list list)" where
  "search X format parse rpc schema data =
     (search_request X schema data,
      (case rpc (search_request X schema data) of
         None \<Rightarrow> Inr []
       | Some r \<Rightarrow>
           search_results format parse (round_decimal_of data) (res_fields_data r) (res_ids r)
             (res_topks r) (res_scores r)))"

section \<open>Query: vector columns\<close>

text \<open>
  A vector column of a \<^verbatim>\<open>Query\<close> response: \<^verbatim>\<open>dim\<close> (an int64 of the wire), the key
  \<^verbatim>\<open>item.vectors.data\<close> that names the encoding, and the flat array under that key
  (\<^verbatim>\<open>float_vector.data\<close>, or the bytes of the buffer for any other key).
\<close>

record vectors_column =
  vec_dim :: int
  vec_key :: string
  vec_values :: "jsval list"

text \<open>Lines 640-643: the row length, \<^verbatim>\<open>dim\<close> for a float vector and \<^verbatim>\<open>dim / 8\<close> otherwise.\<close>

definition row_length :: "vectors_column \<Rightarrow> rat" where
  "row_length c =
     (if vec_key c = ''float_vector'' then of_int (vec_dim c) else of_int (vec_dim c) / 8)"

text \<open>
  Line 648, \<^verbatim>\<open>Math.floor(i / dim)\<close>: with \<^verbatim>\<open>dim = 0\<close> the quotient is \<^verbatim>\<open>NaN\<close> or \<^verbatim>\<open>Infinity\<close>,
  no array index (\<open>None\<close>).
\<close>

definition row_index :: "nat \<Rightarrow> rat \<Rightarrow> int option" where
  "row_index i d = (if d = 0 then None else Some \<lfloor>of_nat i / d\<rfloor>)"

text \<open>\<^verbatim>\<open>arr[i]\<close> on an array with holes: a hole and an index out of range read as \<^verbatim>\<open>undefined\<close>.\<close>

definition slot :: "'a option list \<Rightarrow> nat \<Rightarrow> 'a option" where
  "slot arr i = (if i < length arr then arr ! i else None)"

text \<open>
  Lines 649-652: \<^verbatim>\<open>if (!data[index]) data[index] = []; data[index].push(v)\<close>. A key that
  is no array index names a property that no \<^verbatim>\<open>forEach\<close> visits; the model drops it.
\<close>

definition push_at :: "'a list option list \<Rightarrow> int option \<Rightarrow> 'a \<Rightarrow> 'a list option list" where
  "push_at data index v =
     (case index of
        None \<Rightarrow> data
      | Some k \<Rightarrow>
          if k < 0 then data
          else (case slot data (nat k) of
                  None \<Rightarrow> set_index data (nat k) [v]
                | Some row \<Rightarrow> data[nat k := Some (row @ [v])]))"

text \<open>Lines 647-653: \<^verbatim>\<open>vectorValue.forEach((v, i) => ...)\<close>.\<close>

fun unflatten :: "rat \<Rightarrow> 'a list \<Rightarrow> nat \<Rightarrow> 'a list option list \<Rightarrow> 'a list option list" where
  "unflatten d [] i data = data"
| "unflatten d (v # vs) i data = unflatten d vs (Suc i) (push_at data (row_index i d) v)"

text \<open>Lines 632-658: the rows of one vector column, from \<^verbatim>\<open>data = []\<close>.\<close>

definition decode_vectors :: "vectors_column \<Rightarrow> jsval list option list" where
  "decode_vectors c = unflatten (row_length c) (vec_values c) 0 []"

text \<open>
  The spec's words for the same (4.6): "slicing every \<open>dimension\<close> consecutive elements
  into one row's vector value, preserving row order".
\<close>

fun slices :: "nat \<Rightarrow> 'a list \<Rightarrow> 'a list list" where
  "slices d xs = (if d = 0 \<or> xs = [] then [] else take d xs # slices d (drop d xs))"

section \<open>Sample inputs\<close>

text \<open>
  An instance of the parameters for the concrete inputs below: the type names of the
  wire, \<^verbatim>\<open>Number\<close> on strings of decimal digits (\<^verbatim>\<open>NaN\<close> on the other strings used here),
  \<^verbatim>\<open>JSON.stringify\<close> on \<^verbatim>\<open>true\<close>, \<^verbatim>\<open>false\<close> and the empty object, and the two defaults.
\<close>

definition sample_DataTypeMap :: "string \<Rightarrow> DataType option" where
  "sample_DataTypeMap =
     map_of [(''Bool'', Bool), (''Int8'', Int8), (''Int16'', Int16), (''Int32'', Int32),
             (''Int64'', Int64), (''Float'', Float), (''Double'', Double), (''VarChar'', VarChar),
             (''JSON'', JSON), (''BinaryVector'', BinaryVector), (''FloatVector'', FloatVector)]"

definition sample_Number :: "string \<Rightarrow> jsnum" where
  "sample_Number s =
     (if list_all (\<lambda>c. c \<in> set ''0123456789'') s
      then Fin (of_nat (foldl (\<lambda>n c. 10 * n + (of_char c - 48)) 0 s)) else NaN)"

fun sample_stringify :: "jsval \<Rightarrow> string" where
  "sample_stringify (JBool True) = ''true''"
| "sample_stringify (JBool False) = ''false''"
| "sample_stringify (JObject []) = ''{}''"
| "sample_stringify v = ''null''"

text \<open>
  A sample of the imported \<^verbatim>\<open>formatNumberPrecision\<close>: it cuts a finite score after the
  digits that a precision \<open>d \<ge> 0\<close> counts, as \<open>slice_digits\<close> does, with \<^verbatim>\<open>null\<close> counting
  as no digit; the inputs below use no other precision.
\<close>

fun sample_format :: "jsnum \<Rightarrow> jsval \<Rightarrow> jsnum" where
  "sample_format (Fin x) (JNumber (Fin d)) =
     (if 0 \<le> d then Fin (slice_digits x (nat \<lfloor>d\<rfloor>)) else Fin x)"
| "sample_format (Fin x) JNull = Fin (slice_digits x 0)"
| "sample_format score precision = score"

definition sample_externals :: externals where
  "sample_externals =
     \<lparr>DataTypeMap = sample_DataTypeMap, Number_of_string = sample_Number,
      JSON_stringify = sample_stringify, DEFAULT_TOPK = JNumber (Fin 100),
      DEFAULT_METRIC_TYPE = JString ''L2''\<rparr>"

definition sample_field :: "string \<Rightarrow> string \<Rightarrow> (string \<times> string) list \<Rightarrow> FieldSchema" where
  "sample_field n t ps =
     \<lparr>name = n, data_type = t, type_params = ps, is_primary_key = False, autoID = False\<rparr>"

text \<open>A schema with two vector fields, and one with none.\<close>

definition two_vector_schema :: "FieldSchema list" where
  "two_vector_schema =
     [sample_field ''vecA'' ''FloatVector'' [(''dim'', ''4'')],
      sample_field ''age'' ''Int64'' [],
      sample_field ''vecB'' ''BinaryVector'' [(''dim'', ''16'')]]"

definition scalar_schema :: "FieldSchema list" where
  "scalar_schema = [sample_field ''age'' ''Int64'' []]"

text \<open>A request of the simple shape: one query vector, nothing else set.\<close>

definition simple_request :: SearchData where
  "simple_request =
     \<lparr>collection_name = ''c'', partition_names = JUndefined, output_fields = None,
      search_params = None, vectors = None, vector = JArray [JNumber (Fin 1), JNumber (Fin 2)],
      nq = JUndefined, expr = JUndefined, filter_expr = JUndefined, limit = JUndefined,
      topk = JUndefined, offset = JUndefined, metric_type = JUndefined, params = None\<rparr>"

text \<open>A natural number as a JavaScript value.\<close>

definition js_nat :: "nat \<Rightarrow> jsval" where
  "js_nat n = JNumber (Fin (of_nat n))"

text \<open>A response with one query and one hit.\<close>

definition one_hit :: SearchResultData where
  "one_hit =
     \<lparr>res_topks = [1], res_scores = [Fin (1 / 2)], res_fields_data = [],
      res_ids = Some [JNumber (Fin 7)]\<rparr>"

text \<open>
  Collections of one field each: a binary vector of 16 bits, a float vector of dimension
  4 and a float vector with no \<open>dim\<close> parameter; and a collection with an integer field
  and a JSON field.
\<close>

definition collection_of :: "FieldSchema list \<Rightarrow> DescribeCollectionResponse" where
  "collection_of schema = \<lparr>error_code = SUCCESS, reason = [], schema_fields = schema\<rparr>"

definition binary_collection :: DescribeCollectionResponse where
  "binary_collection = collection_of [sample_field ''bin'' ''BinaryVector'' [(''dim'', ''16'')]]"

definition float_collection :: DescribeCollectionResponse where
  "float_collection = collection_of [sample_field ''vec'' ''FloatVector'' [(''dim'', ''4'')]]"

definition float_collection_no_dim :: DescribeCollectionResponse where
  "float_collection_no_dim = collection_of [sample_field ''vec'' ''FloatVector'' []]"

definition json_collection :: DescribeCollectionResponse where
  "json_collection =
     collection_of [sample_field ''id'' ''Int64'' [], sample_field ''meta'' ''JSON'' []]"

section \<open>Properties of the search result decoder\<close>





text \<open>
  After the first query the index into \<^verbatim>\<open>ids\<close> and the field columns is the rank plus the
  count of the \<^emph>\<open>current\<close> query, whatever the counts of the queries before it.
\<close>

lemma entry_index_later_query: "0 < index \<Longrightarrow> entry_index index scoreIndex k = scoreIndex + k"
  by (simp add: entry_index_def)

text \<open>
  Claim C1. The claim: the absolute index into \<^verbatim>\<open>ids\<close> and the field columns for entry \<open>i\<close>
  of query \<open>q\<close> is \<open>i\<close> for \<open>q = 0\<close> and the sum of the counts of the queries before \<open>q\<close> plus
  \<open>i\<close> otherwise, so that \<^verbatim>\<open>topks = [2, 3]\<close> uses the indices 0, 1, 2, 3, 4. The code adds
  the count of the current query instead: for \<^verbatim>\<open>topks = [2, 3]\<close>, five scores and the ids
  \<open>a, b, c, d, e\<close> the rows carry the ids at 0, 1, 3, 4, 5, that is \<open>a, b, d, e\<close> and
  \<^verbatim>\<open>undefined\<close>; the scores are consumed in order.
\<close>

theorem search_results_topks_2_3:
  "search_results format parse JUndefined []
     (Some [JString ''a'', JString ''b'', JString ''c'', JString ''d'', JString ''e''])
     [2, 3] [Fin 1, Fin 2, Fin 3, Fin 4, Fin 5] =
   Inr [[(''score'', JNumber (Fin 1)), (''id'', JString ''a'')],
        [(''score'', JNumber (Fin 2)), (''id'', JString ''b'')],
        [(''score'', JNumber (Fin 3)), (''id'', JString ''d'')],
        [(''score'', JNumber (Fin 4)), (''id'', JString ''e'')],
        [(''score'', JNumber (Fin 5)), (''id'', JUndefined)]]"
  by (simp add: search_results_def new_result_def entry_index_def elem_def fixedScore_def)




section \<open>Properties of the search request\<close>

lemma classify_snoc: "classify X (schema @ [f]) = classify_field X (classify X schema) f"
  by (simp add: classify_def)

lemma defaultOutputFields_classify:
  "defaultOutputFields (classify X schema) = map name (filter (\<lambda>f. \<not> is_vector X f) schema)"
  by (induction schema rule: rev_induct) (simp_all add: classify_def classify_field_def)

lemma classify_no_vector:
  "filter (is_vector X) schema = [] \<Longrightarrow>
   vectorType (classify X schema) = None \<and> anns_field (classify X schema) = None
     \<and> dim (classify X schema) = Fin 0"
  by (induction schema rule: rev_induct)
    (simp_all add: classify_def classify_field_def split: if_splits)

lemma classify_last_vector:
  "filter (is_vector X) schema \<noteq> [] \<Longrightarrow>
   vectorType (classify X schema) = DataTypeMap X (data_type (last (filter (is_vector X) schema)))
     \<and> anns_field (classify X schema) = Some (name (last (filter (is_vector X) schema)))
     \<and> dim (classify X schema) = field_dim X (last (filter (is_vector X) schema))"
  by (induction schema rule: rev_induct) (auto simp: classify_snoc classify_field_def)

text \<open>
  Claim C2, as amended. For every collection schema with at least one vector field, the
  field whose name, declared type and dimension the request builder keeps (the name as
  \<^verbatim>\<open>anns_field\<close> of the synthesized search parameters, the type as the placeholder type
  that selects the packing) is the \<^emph>\<open>last\<close> field in schema order whose declared type is
  a vector kind; every non-vector field and no vector field is in the default output
  fields, which are sent when the caller gives no \<^verbatim>\<open>output_fields\<close>.
\<close>

theorem anns_field_is_last_vector_field:
  assumes "\<exists>f \<in> set schema. is_vector X f"
  shows "anns_field (classify X schema) = Some (name (last (filter (is_vector X) schema)))
       \<and> vectorType (classify X schema)
           = DataTypeMap X (data_type (last (filter (is_vector X) schema)))
       \<and> dim (classify X schema) = field_dim X (last (filter (is_vector X) schema))
       \<and> placeholder_type (search_request X schema data)
           = DataTypeMap X (data_type (last (filter (is_vector X) schema)))
       \<and> (search_params data = None \<longrightarrow>
            get_prop (req_search_params (search_request X schema data)) ''anns_field''
              = JString (name (last (filter (is_vector X) schema))))
       \<and> defaultOutputFields (classify X schema)
           = map name (filter (\<lambda>f. \<not> is_vector X f) schema)
       \<and> (output_fields data = None \<longrightarrow>
            req_output_fields (search_request X schema data)
              = map name (filter (\<lambda>f. \<not> is_vector X f) schema))"
proof -
  from assms have ne: "filter (is_vector X) schema \<noteq> []"
    by (simp add: filter_empty_conv)
  note last = classify_last_vector [OF ne]
  show ?thesis
    using last
    by (simp add: search_request_def search_params_of_def get_prop_def
        defaultOutputFields_classify)
qed

theorem anns_field_is_last_vector_field_witness:
  "anns_field (classify sample_externals two_vector_schema) = Some ''vecB''
   \<and> vectorType (classify sample_externals two_vector_schema) = Some BinaryVector
   \<and> dim (classify sample_externals two_vector_schema) = Fin 2
   \<and> placeholder_type (search_request sample_externals two_vector_schema simple_request)
       = Some BinaryVector
   \<and> get_prop (req_search_params (search_request sample_externals two_vector_schema
        simple_request)) ''anns_field'' = JString ''vecB''
   \<and> req_output_fields (search_request sample_externals two_vector_schema simple_request)
       = [''age'']"
proof -
  have vec: "\<exists>f \<in> set two_vector_schema. is_vector sample_externals f"
    by code_simp
  have flt: "filter (is_vector sample_externals) two_vector_schema
       = [sample_field ''vecA'' ''FloatVector'' [(''dim'', ''4'')],
          sample_field ''vecB'' ''BinaryVector'' [(''dim'', ''16'')]]"
    by code_simp
  have flt': "map name (filter (\<lambda>f. \<not> is_vector sample_externals f) two_vector_schema) = [''age'']"
    by code_simp
  have d: "field_dim sample_externals (sample_field ''vecB'' ''BinaryVector'' [(''dim'', ''16'')]) = Fin 2"
    by code_simp
  have t: "DataTypeMap sample_externals
        (data_type (sample_field ''vecB'' ''BinaryVector'' [(''dim'', ''16'')])) = Some BinaryVector"
    by code_simp
  have n: "name (sample_field ''vecB'' ''BinaryVector'' [(''dim'', ''16'')]) = ''vecB''"
    by code_simp
  have s: "search_params simple_request = None" "output_fields simple_request = None"
    by (simp_all add: simple_request_def)
  from anns_field_is_last_vector_field [OF vec, of simple_request] show ?thesis
    by (simp add: flt flt' d t n s)
qed

text \<open>
  The claim as stated fails on a schema with two vector fields: the first one is
  \<open>vecA\<close>, the one the request is built for is \<open>vecB\<close>.
\<close>

theorem anns_field_first_counterexample:
  "name (hd (filter (is_vector sample_externals) two_vector_schema)) = ''vecA''
   \<and> anns_field (classify sample_externals two_vector_schema) = Some ''vecB''
   \<and> placeholder_type (search_request sample_externals two_vector_schema simple_request)
       = Some BinaryVector"
  by code_simp

text \<open>
  Claim C3, as amended. For every search call whose collection schema has no vector
  field the body raises no error before the \<^verbatim>\<open>Search\<close> call: the vector type and the
  \<^verbatim>\<open>anns_field\<close> stay undefined, the query vectors are packed as float vectors, every
  field is a default output field, the request is sent and the answer decoded.
\<close>

theorem search_without_vector_field:
  assumes "\<forall>f \<in> set schema. \<not> is_vector X f"
  shows "fst (search X format parse rpc schema data) = search_request X schema data
       \<and> placeholder_type (search_request X schema data) = None
       \<and> placeholder_values (search_request X schema data)
           = map parseFloatVectorToBytes (searchVectors data)
       \<and> (search_params data = None \<longrightarrow>
            get_prop (req_search_params (search_request X schema data)) ''anns_field''
              = JUndefined)
       \<and> (output_fields data = None \<longrightarrow>
            req_output_fields (search_request X schema data) = map name schema)
       \<and> (rpc (search_request X schema data) = None \<longrightarrow>
            snd (search X format parse rpc schema data) = Inr [])
       \<and> (\<forall>r. rpc (search_request X schema data) = Some r \<longrightarrow>
            snd (search X format parse rpc schema data)
              = search_results format parse (round_decimal_of data) (res_fields_data r) (res_ids r)
                  (res_topks r) (res_scores r))"
proof -
  from assms have none: "filter (is_vector X) schema = []"
    by (simp add: filter_empty_conv)
  from assms have all: "filter (\<lambda>f. \<not> is_vector X f) schema = schema"
    by (simp add: filter_id_conv)
  note c = classify_no_vector [OF none]
  show ?thesis
    using c
    by (simp add: search_def search_request_def search_params_of_def get_prop_def
        defaultOutputFields_classify all)
qed

theorem search_without_vector_field_witness:
  "search sample_externals sample_format Some (\<lambda>req. Some one_hit) scalar_schema simple_request =
     (\<lparr>req_collection_name = ''c'', req_partition_names = JUndefined,
       req_output_fields = [''age''], req_nq = JNumber (Fin 1), req_dsl = JString [],
       placeholder_tag = ''$0'', placeholder_type = None,
       placeholder_values =
         [parseFloatVectorToBytes (JArray [JNumber (Fin 1), JNumber (Fin 2)])],
       req_search_params =
         [(''anns_field'', JUndefined), (''topk'', JNumber (Fin 100)),
          (''offset'', JNumber (Fin 0)), (''metric_type'', JString ''L2''),
          (''params'', JString ''{}'')]\<rparr>,
      Inr [[(''score'', JNumber (Fin (1 / 2))), (''id'', JNumber (Fin 7))]])"
proof -
  have novec: "\<forall>f \<in> set scalar_schema. \<not> is_vector sample_externals f"
    by code_simp
  have req: "search_request sample_externals scalar_schema simple_request =
     \<lparr>req_collection_name = ''c'', req_partition_names = JUndefined,
       req_output_fields = [''age''], req_nq = JNumber (Fin 1), req_dsl = JString [],
       placeholder_tag = ''$0'', placeholder_type = None,
       placeholder_values =
         [parseFloatVectorToBytes (JArray [JNumber (Fin 1), JNumber (Fin 2)])],
       req_search_params =
         [(''anns_field'', JUndefined), (''topk'', JNumber (Fin 100)),
          (''offset'', JNumber (Fin 0)), (''metric_type'', JString ''L2''),
          (''params'', JString ''{}'')]\<rparr>"
    by code_simp
  have dec: "search_results sample_format Some (round_decimal_of simple_request) (res_fields_data one_hit)
       (res_ids one_hit) (res_topks one_hit) (res_scores one_hit)
       = Inr [[(''score'', JNumber (Fin (1 / 2))), (''id'', JNumber (Fin 7))]]"
    by code_simp
  from search_without_vector_field [OF novec, of sample_format Some "\<lambda>req. Some one_hit"
      simple_request]
  have "fst (search sample_externals sample_format Some (\<lambda>req. Some one_hit) scalar_schema simple_request)
          = search_request sample_externals scalar_schema simple_request"
    and "snd (search sample_externals sample_format Some (\<lambda>req. Some one_hit) scalar_schema simple_request)
          = search_results sample_format Some (round_decimal_of simple_request) (res_fields_data one_hit)
              (res_ids one_hit) (res_topks one_hit) (res_scores one_hit)"
    by simp_all
  then show ?thesis
    by (simp add: req dec prod_eq_iff)
qed

text \<open>
  The claim as stated fails on a schema of one scalar field: no error is raised, the
  \<^verbatim>\<open>Search\<close> request goes out with no placeholder type, and the hit of the answer is
  returned.
\<close>

theorem missing_vector_field_counterexample:
  "filter (is_vector sample_externals) scalar_schema = []
   \<and> placeholder_type (fst (search sample_externals sample_format Some (\<lambda>req. Some one_hit) scalar_schema
        simple_request)) = None
   \<and> snd (search sample_externals sample_format Some (\<lambda>req. Some one_hit) scalar_schema simple_request)
       = Inr [[(''score'', JNumber (Fin (1 / 2))), (''id'', JNumber (Fin 7))]]"
  by code_simp

text \<open>
  Claim C7. The \<^verbatim>\<open>round_decimal\<close> handed to the decoder is the one of the explicit
  \<^verbatim>\<open>search_params\<close> whenever that object defines it with a value other than \<^verbatim>\<open>null\<close> and
  \<^verbatim>\<open>undefined\<close>, whatever the simple-shape \<^verbatim>\<open>params\<close> hold; otherwise it is
  \<^verbatim>\<open>params.round_decimal\<close>.
\<close>

theorem round_decimal_precedence:
  "round_decimal_of data =
     (case search_params data of
        None \<Rightarrow> opt_prop (params data) ''round_decimal''
      | Some sp \<Rightarrow>
          (case map_of sp ''round_decimal'' of
             None \<Rightarrow> opt_prop (params data) ''round_decimal''
           | Some v \<Rightarrow>
               if v = JNull \<or> v = JUndefined then opt_prop (params data) ''round_decimal''
               else v))
   \<and> snd (search X format parse rpc schema data) =
       (case rpc (search_request X schema data) of
          None \<Rightarrow> Inr []
        | Some r \<Rightarrow>
            search_results format parse (round_decimal_of data) (res_fields_data r) (res_ids r)
              (res_topks r) (res_scores r))"
proof -
  have n: "nullish v \<longleftrightarrow> v = JNull \<or> v = JUndefined" for v
    by (cases v) simp_all
  show ?thesis
    by (simp add: round_decimal_of_def coalesce_def opt_prop_def get_prop_def search_def n
        split: option.splits)
qed

theorem round_decimal_precedence_witness:
  "round_decimal_of
     (simple_request\<lparr>search_params := Some [(''round_decimal'', JNumber (Fin 2))],
        params := Some [(''round_decimal'', JNumber (Fin 5))]\<rparr>) = JNumber (Fin 2)
   \<and> round_decimal_of
     (simple_request\<lparr>search_params := Some [(''round_decimal'', JNull)],
        params := Some [(''round_decimal'', JNumber (Fin 5))]\<rparr>) = JNumber (Fin 5)"
  using round_decimal_precedence
    [of "simple_request\<lparr>search_params := Some [(''round_decimal'', JNumber (Fin 2))],
        params := Some [(''round_decimal'', JNumber (Fin 5))]\<rparr>"]
    round_decimal_precedence
    [of "simple_request\<lparr>search_params := Some [(''round_decimal'', JNull)],
        params := Some [(''round_decimal'', JNumber (Fin 5))]\<rparr>"]
  by (simp add: opt_prop_def get_prop_def)

section \<open>Properties of the insert encoder\<close>

lemma map_of_assign: "map_of (assign m k v) k' = (if k' = k then Some v else map_of m k')"
  by (induction m) auto

lemma map_of_foldl_assign:
  "distinct (map kf fs) \<Longrightarrow> f \<in> set fs \<Longrightarrow>
   map_of (foldl (\<lambda>m v. assign m (kf v) (g v)) m0 fs) (kf f) = Some (g f)"
proof (induction fs rule: rev_induct)
  case Nil
  then show ?case by simp
next
  case (snoc x xs)
  show ?case
  proof (cases "f = x")
    case True
    then show ?thesis by (simp add: map_of_assign)
  next
    case False
    with snoc.prems have "f \<in> set xs" by simp
    moreover from this snoc.prems have "kf f \<noteq> kf x" by (auto simp: image_iff)
    ultimately have "f \<in> set xs" "kf f \<noteq> kf x" by simp_all
    with snoc show ?thesis by (simp add: map_of_assign)
  qed
qed

lemma map_of_foldl_assign_range:
  "map_of (foldl (\<lambda>m v. assign m (kf v) (g v)) [] fs) n = Some t \<Longrightarrow> \<exists>f \<in> set fs. t = g f"
  by (induction fs arbitrary: t rule: rev_induct) (auto simp: map_of_assign split: if_splits)

lemma fieldsData_of_lookup:
  assumes "distinct (map name schema)" "f \<in> set schema" "\<not> is_primary_key f \<or> \<not> autoID f"
  shows "map_of (fieldsData_of X schema) (name f) = Some (new_target X f)"
  unfolding fieldsData_of_def
  using assms by (intro map_of_foldl_assign) (auto simp: distinct_map_filter)

lemma fieldsData_of_range:
  "map_of (fieldsData_of X schema) n = Some t \<Longrightarrow> \<exists>f \<in> set schema. t = new_target X f"
  unfolding fieldsData_of_def by (drule map_of_foldl_assign_range) auto

lemma slot_set_index: "slot (set_index arr i x) j = (if j = i then Some x else slot arr j)"
  by (auto simp: slot_def set_index_def nth_append)

lemma encode_value_keeps:
  "encode_value X t i x = Inr t' \<Longrightarrow>
   target_type t' = target_type t \<and> target_dim t' = target_dim t \<and> target_name t' = target_name t"
  by (auto simp: encode_value_def split: if_splits sum.splits)

lemma encode_field_Inr:
  "encode_field X v i fd n = Inr fd' \<Longrightarrow>
   \<exists>t t'. map_of fd n = Some t \<and> check_dim X t (get_prop v n) = None
     \<and> encode_value X t i (get_prop v n) = Inr t' \<and> fd' = assign fd n t'"
  by (auto simp: encode_field_def split: option.splits sum.splits)

lemma encode_field_other:
  "encode_field X v i fd n = Inr fd' \<Longrightarrow> k \<noteq> n \<Longrightarrow> map_of fd' k = map_of fd k"
  by (auto dest!: encode_field_Inr simp: map_of_assign)

lemma encode_field_keeps:
  assumes "encode_field X v i fd n = Inr fd'" "map_of fd k = Some t"
  shows "\<exists>t'. map_of fd' k = Some t' \<and> target_type t' = target_type t
           \<and> target_dim t' = target_dim t \<and> target_name t' = target_name t"
proof (cases "k = n")
  case True
  with assms show ?thesis
    by (auto dest!: encode_field_Inr encode_value_keeps simp: map_of_assign)
next
  case False
  with assms show ?thesis
    by (simp add: encode_field_other)
qed

lemma encode_field_errors:
  "encode_field X v i fd n = Inl e \<Longrightarrow>
   e = INSERT_CHECK_WRONG_FIELD i \<or> e = INSERT_CHECK_WRONG_DIM \<or> e = TypeError"
proof -
  have it: "js_iterate x = Inl e' \<Longrightarrow> e' = TypeError" for x e'
    by (cases x) auto
  have len: "js_length x = Inl e' \<Longrightarrow> e' = TypeError" for x e'
    by (cases x) auto
  assume "encode_field X v i fd n = Inl e"
  then show ?thesis
    by (auto simp: encode_field_def check_dim_def encode_value_def
        split: option.splits sum.splits if_splits dest: it len)
qed

lemma encode_row_errors:
  "encode_row X v i ns fd = Inl e \<Longrightarrow>
   e = INSERT_CHECK_WRONG_FIELD i \<or> e = INSERT_CHECK_WRONG_DIM \<or> e = TypeError"
  by (induction ns arbitrary: fd) (auto split: sum.splits dest: encode_field_errors)

lemma encode_rows_errors:
  "encode_rows X rows i fd = Inl e \<Longrightarrow>
   (\<exists>m. e = INSERT_CHECK_WRONG_FIELD m) \<or> e = INSERT_CHECK_WRONG_DIM \<or> e = TypeError"
  by (induction rows arbitrary: i fd) (auto split: sum.splits dest: encode_row_errors)

lemma encode_row_keeps:
  "encode_row X v i ns fd = Inr fd' \<Longrightarrow> map_of fd k = Some t \<Longrightarrow>
   \<exists>t'. map_of fd' k = Some t' \<and> target_type t' = target_type t
           \<and> target_dim t' = target_dim t \<and> target_name t' = target_name t"
proof (induction ns arbitrary: fd t)
  case Nil
  then show ?case by simp
next
  case (Cons n ns)
  from Cons.prems(1) obtain fd1 where 1: "encode_field X v i fd n = Inr fd1"
    and 2: "encode_row X v i ns fd1 = Inr fd'"
    by (auto split: sum.splits)
  from encode_field_keeps [OF 1 Cons.prems(2)] obtain t1 where
    "map_of fd1 k = Some t1" "target_type t1 = target_type t" "target_dim t1 = target_dim t"
    "target_name t1 = target_name t"
    by blast
  with Cons.IH [OF 2, of t1] show ?case by simp
qed

lemma encode_rows_keeps:
  "encode_rows X rows i fd = Inr fd' \<Longrightarrow> map_of fd k = Some t \<Longrightarrow>
   \<exists>t'. map_of fd' k = Some t' \<and> target_type t' = target_type t
           \<and> target_dim t' = target_dim t \<and> target_name t' = target_name t"
proof (induction rows arbitrary: i fd t)
  case Nil
  then show ?case by simp
next
  case (Cons v rows)
  from Cons.prems(1) obtain fd1 where 1: "encode_row X v i (map fst v) fd = Inr fd1"
    and 2: "encode_rows X rows (Suc i) fd1 = Inr fd'"
    by (auto split: sum.splits)
  from encode_row_keeps [OF 1 Cons.prems(2)] obtain t1 where
    "map_of fd1 k = Some t1" "target_type t1 = target_type t" "target_dim t1 = target_dim t"
    "target_name t1 = target_name t"
    by blast
  with Cons.IH [OF 2, of t1] show ?case by simp
qed

lemma length_mismatch_keeps:
  assumes "length_mismatch X fd v k"
    and "\<And>t. map_of fd k = Some t \<Longrightarrow>
           \<exists>t'. map_of fd' k = Some t' \<and> target_type t' = target_type t
                 \<and> target_dim t' = target_dim t \<and> target_name t' = target_name t"
  shows "length_mismatch X fd' v k"
proof -
  from assms(1) obtain t where t: "map_of fd k = Some t"
    by (auto simp: length_mismatch_def split: option.splits)
  from assms(2) [OF t] obtain t' where t': "map_of fd' k = Some t'"
    "target_type t' = target_type t" "target_dim t' = target_dim t"
    by blast
  from assms(1) t t' show ?thesis
    by (cases "js_length (get_prop v k)") (simp_all add: length_mismatch_def)
qed

lemma length_mismatch_field:
  assumes "encode_field X v' i fd n = Inr fd'" and "length_mismatch X fd v k"
  shows "length_mismatch X fd' v k"
  using assms(2) by (rule length_mismatch_keeps) (rule encode_field_keeps [OF assms(1)])

lemma length_mismatch_row:
  assumes "encode_row X v' i ns fd = Inr fd'" and "length_mismatch X fd v k"
  shows "length_mismatch X fd' v k"
  using assms(2) by (rule length_mismatch_keeps) (rule encode_row_keeps [OF assms(1)])

lemma length_mismatch_rows:
  assumes "encode_rows X rows i fd = Inr fd'" and "length_mismatch X fd v k"
  shows "length_mismatch X fd' v k"
  using assms(2) by (rule length_mismatch_keeps) (rule encode_rows_keeps [OF assms(1)])

lemma length_mismatch_fails:
  "length_mismatch X fd v k \<Longrightarrow> encode_field X v i fd k = Inl INSERT_CHECK_WRONG_DIM"
  by (auto simp: length_mismatch_def encode_field_def check_dim_def split: option.splits sum.splits)

lemma encode_row_mismatch:
  "length_mismatch X fd v k \<Longrightarrow> k \<in> set ns \<Longrightarrow> \<exists>e. encode_row X v i ns fd = Inl e"
proof (induction ns arbitrary: fd)
  case Nil
  then show ?case by simp
next
  case (Cons n ns)
  show ?case
  proof (cases "encode_field X v i fd n")
    case (Inl e)
    then show ?thesis by simp
  next
    case (Inr fd1)
    with Cons.prems length_mismatch_fails [of X fd v k i] have "k \<in> set ns"
      by auto
    moreover from Inr Cons.prems have "length_mismatch X fd1 v k"
      by (simp add: length_mismatch_field)
    ultimately show ?thesis
      using Cons.IH [of fd1] Inr by simp
  qed
qed

lemma encode_rows_mismatch:
  "j < length rows \<Longrightarrow> k \<in> fst ` set (rows ! j) \<Longrightarrow> length_mismatch X fd (rows ! j) k
    \<Longrightarrow> \<exists>e. encode_rows X rows i fd = Inl e"
proof (induction rows arbitrary: j i fd)
  case Nil
  then show ?case by simp
next
  case (Cons v rows)
  show ?case
  proof (cases j)
    case 0
    with Cons.prems encode_row_mismatch [of X fd v k "map fst v" i] show ?thesis
      by auto
  next
    case (Suc j')
    show ?thesis
    proof (cases "encode_row X v i (map fst v) fd")
      case (Inl e)
      then show ?thesis by simp
    next
      case (Inr fd1)
      with Cons.prems Suc have "length_mismatch X fd1 (rows ! j') k"
        by (simp add: length_mismatch_row)
      with Cons.IH [of j' fd1 "Suc i"] Cons.prems Suc Inr show ?thesis
        by simp
    qed
  qed
qed

lemma encode_row_append:
  "encode_row X v i (ns @ ms) fd =
     (case encode_row X v i ns fd of Inl e \<Rightarrow> Inl e | Inr fd' \<Rightarrow> encode_row X v i ms fd')"
  by (induction ns arbitrary: fd) (auto split: sum.splits)

lemma encode_rows_append:
  "encode_rows X (rs @ ss) i fd =
     (case encode_rows X rs i fd of
        Inl e \<Rightarrow> Inl e
      | Inr fd' \<Rightarrow> encode_rows X ss (i + length rs) fd')"
  by (induction rs arbitrary: i fd) (auto split: sum.splits)

lemma insert_encode_error:
  assumes "rows \<noteq> []" "error_code info = SUCCESS"
    and "encode_rows X rows 0 (fieldsData_of X (schema_fields info)) = Inl e"
  shows "insert_rows X info rows = Inl e"
  using assms by (simp add: insert_rows_def)

text \<open>
  Claim C6, as amended. Whenever a row of an insert holds a binary vector value whose
  length is not the field's \<^verbatim>\<open>dim / 8\<close>, \<^verbatim>\<open>insert\<close> throws and the \<^verbatim>\<open>Insert\<close> call is never made.
  The error thrown is the first one met in row order, then key order: it is the dimension
  error whenever the rows and the keys before the offending value are encoded without an
  error of their own, and otherwise the error of an earlier entry (an unknown field, a
  value that cannot be read) or the reason of a failed \<^verbatim>\<open>describeCollection\<close>.
\<close>

theorem binary_vector_length_mismatch:
  assumes "j < length rows" and "k \<in> fst ` set (rows ! j)"
    and "length_mismatch X (fieldsData_of X (schema_fields info)) (rows ! j) k"
  shows "(\<exists>e. insert_rows X info rows = Inl e
            \<and> ((\<exists>r. e = StatusReason r) \<or> (\<exists>m. e = INSERT_CHECK_WRONG_FIELD m)
                 \<or> e = INSERT_CHECK_WRONG_DIM \<or> e = TypeError))
       \<and> (error_code info = SUCCESS
            \<and> encode_rows X (take j rows) 0 (fieldsData_of X (schema_fields info)) = Inr fd1
            \<and> encode_row X (rows ! j) j (takeWhile (\<lambda>n. n \<noteq> k) (map fst (rows ! j))) fd1
                = Inr fd2
          \<longrightarrow> insert_rows X info rows = Inl INSERT_CHECK_WRONG_DIM)"
proof -
  let ?fd = "fieldsData_of X (schema_fields info)"
  from assms(1) have ne: "rows \<noteq> []" by auto
  have fails: "\<exists>e. insert_rows X info rows = Inl e
            \<and> ((\<exists>r. e = StatusReason r) \<or> (\<exists>m. e = INSERT_CHECK_WRONG_FIELD m)
                 \<or> e = INSERT_CHECK_WRONG_DIM \<or> e = TypeError)"
  proof (cases "error_code info = SUCCESS")
    case False
    with ne show ?thesis by (simp add: insert_rows_def)
  next
    case True
    from encode_rows_mismatch [OF assms] obtain e where e: "encode_rows X rows 0 ?fd = Inl e"
      by blast
    from insert_encode_error [OF ne True e] encode_rows_errors [OF e] show ?thesis
      by blast
  qed
  have first: "insert_rows X info rows = Inl INSERT_CHECK_WRONG_DIM"
    if ok: "error_code info = SUCCESS"
      and before: "encode_rows X (take j rows) 0 ?fd = Inr fd1"
      and keys: "encode_row X (rows ! j) j (takeWhile (\<lambda>n. n \<noteq> k) (map fst (rows ! j))) fd1
                = Inr fd2"
  proof -
    let ?v = "rows ! j"
    from assms(3) before have "length_mismatch X fd1 ?v k"
      by (rule length_mismatch_rows [rotated])
    with keys have "length_mismatch X fd2 ?v k"
      by (rule length_mismatch_row)
    then have field: "encode_field X ?v j fd2 k = Inl INSERT_CHECK_WRONG_DIM"
      by (rule length_mismatch_fails)
    from assms(2) have "k \<in> set (map fst ?v)" by (simp only: set_map)
    then have dw: "dropWhile (\<lambda>n. n \<noteq> k) (map fst ?v) \<noteq> []"
      by (auto simp: dropWhile_eq_Nil_conv)
    with hd_dropWhile [of "\<lambda>n. n \<noteq> k" "map fst ?v"]
    have "hd (dropWhile (\<lambda>n. n \<noteq> k) (map fst ?v)) = k"
      by simp
    with dw obtain rest where "dropWhile (\<lambda>n. n \<noteq> k) (map fst ?v) = k # rest"
      by (cases "dropWhile (\<lambda>n. n \<noteq> k) (map fst ?v)") auto
    then have split: "map fst ?v = takeWhile (\<lambda>n. n \<noteq> k) (map fst ?v) @ k # rest"
      by (metis takeWhile_dropWhile_id)
    have row: "encode_row X ?v j (map fst ?v) fd1 = Inl INSERT_CHECK_WRONG_DIM"
      by (subst split) (simp add: encode_row_append keys field)
    from assms(1) have rows: "rows = take j rows @ ?v # drop (Suc j) rows"
      by (simp add: id_take_nth_drop)
    have "encode_rows X rows 0 ?fd = Inl INSERT_CHECK_WRONG_DIM"
      using assms(1) by (subst rows) (simp add: encode_rows_append before row)
    with ne ok show ?thesis
      by (rule insert_encode_error)
  qed
  from fails first show ?thesis
    by blast
qed

theorem binary_vector_length_mismatch_witness:
  "insert_rows sample_externals binary_collection
     [[(''bin'', JArray [JNumber (Fin 1), JNumber (Fin 0)])], [(''bin'', JArray [JNumber (Fin 1)])]]
     = Inl INSERT_CHECK_WRONG_DIM"
proof -
  let ?rows = "[[(''bin'', JArray [JNumber (Fin 1), JNumber (Fin 0)])],
                [(''bin'', JArray [JNumber (Fin 1)])]]"
  let ?fd = "fieldsData_of sample_externals (schema_fields binary_collection)"
  let ?fd1 = "[(''bin'', \<lparr>target_name = ''bin'', target_type = ''BinaryVector'',
                  target_dim = Fin 16,
                  target_value = [Some (JNumber (Fin 1)), Some (JNumber (Fin 0))]\<rparr>)]"
  have 1: "1 < length ?rows" by simp
  have 2: "''bin'' \<in> fst ` set (?rows ! 1)" by simp
  have 3: "length_mismatch sample_externals ?fd (?rows ! 1) ''bin''"
    by code_simp
  have 4: "error_code binary_collection = SUCCESS"
    by (simp add: binary_collection_def collection_of_def)
  have 5: "encode_rows sample_externals (take 1 ?rows) 0 ?fd = Inr ?fd1"
    by code_simp
  have 6: "encode_row sample_externals (?rows ! 1) 1
             (takeWhile (\<lambda>n. n \<noteq> ''bin'') (map fst (?rows ! 1))) ?fd1 = Inr ?fd1"
    by simp
  from binary_vector_length_mismatch [OF 1 2 3, of ?fd1 ?fd1] 4 5 6 show ?thesis
    by blast
qed

text \<open>
  The claim as stated fails on a row that names an unknown field before the binary
  vector of wrong length: the unknown field is the error thrown.
\<close>

theorem binary_vector_length_mismatch_counterexample:
  "length_mismatch sample_externals
     (fieldsData_of sample_externals (schema_fields binary_collection))
     [(''nope'', JNumber (Fin 1)), (''bin'', JArray [JNumber (Fin 1)])] ''bin''
   \<and> insert_rows sample_externals binary_collection
       [[(''nope'', JNumber (Fin 1)), (''bin'', JArray [JNumber (Fin 1)])]]
     = Inl (INSERT_CHECK_WRONG_FIELD 0)"
  by code_simp

text \<open>
  Claim C10. A float vector value is never length-checked: whatever its length, its
  elements are appended to the flat column, and the dimension error is thrown for
  binary vector fields only.
\<close>

lemma encode_field_back:
  assumes "encode_field X v i fd n = Inr fd'" and "map_of fd' k = Some t'"
  shows "\<exists>t. map_of fd k = Some t \<and> target_type t = target_type t'"
proof -
  from encode_field_Inr [OF assms(1)] obtain t t1 where
    *: "map_of fd n = Some t" "encode_value X t i (get_prop v n) = Inr t1" "fd' = assign fd n t1"
    by blast
  from *(2) have "target_type t1 = target_type t"
    by (simp add: encode_value_keeps)
  with * assms(2) show ?thesis
    by (cases "k = n") (auto simp: map_of_assign)
qed

lemma encode_row_back:
  "encode_row X v i ns fd = Inr fd' \<Longrightarrow> map_of fd' k = Some t'
    \<Longrightarrow> \<exists>t. map_of fd k = Some t \<and> target_type t = target_type t'"
proof (induction ns arbitrary: fd)
  case Nil
  then show ?case by simp
next
  case (Cons n ns)
  from Cons.prems(1) obtain fd1 where 1: "encode_field X v i fd n = Inr fd1"
    and 2: "encode_row X v i ns fd1 = Inr fd'"
    by (auto split: sum.splits)
  from Cons.IH [OF 2 Cons.prems(2)] obtain t1 where
    "map_of fd1 k = Some t1" "target_type t1 = target_type t'"
    by blast
  with encode_field_back [OF 1, of k t1] show ?case by auto
qed

lemma wrong_dim_field:
  "encode_field X v i fd n = Inl INSERT_CHECK_WRONG_DIM \<Longrightarrow>
   \<exists>t. map_of fd n = Some t \<and> DataTypeMap X (target_type t) = Some BinaryVector"
proof -
  have it: "js_iterate x \<noteq> Inl INSERT_CHECK_WRONG_DIM" for x
    by (cases x) auto
  assume "encode_field X v i fd n = Inl INSERT_CHECK_WRONG_DIM"
  with it [of "get_prop v n"] show ?thesis
    by (auto simp: encode_field_def check_dim_def encode_value_def
        split: option.splits sum.splits if_splits)
qed

lemma wrong_dim_row:
  "encode_row X v i ns fd = Inl INSERT_CHECK_WRONG_DIM \<Longrightarrow>
   \<exists>n t. map_of fd n = Some t \<and> DataTypeMap X (target_type t) = Some BinaryVector"
proof (induction ns arbitrary: fd)
  case Nil
  then show ?case by simp
next
  case (Cons n ns)
  show ?case
  proof (cases "encode_field X v i fd n")
    case (Inl e)
    with Cons.prems wrong_dim_field [of X v i fd n] show ?thesis by auto
  next
    case (Inr fd1)
    with Cons.prems Cons.IH [of fd1] obtain m t1 where
      m: "map_of fd1 m = Some t1" "DataTypeMap X (target_type t1) = Some BinaryVector"
      by auto
    from encode_field_back [OF Inr m(1)] m(2) show ?thesis by metis
  qed
qed

lemma wrong_dim_rows:
  "encode_rows X rows i fd = Inl INSERT_CHECK_WRONG_DIM \<Longrightarrow>
   \<exists>n t. map_of fd n = Some t \<and> DataTypeMap X (target_type t) = Some BinaryVector"
proof (induction rows arbitrary: i fd)
  case Nil
  then show ?case by simp
next
  case (Cons r rows)
  show ?case
  proof (cases "encode_row X r i (map fst r) fd")
    case (Inl e)
    with Cons.prems wrong_dim_row [of X r i "map fst r" fd] show ?thesis by auto
  next
    case (Inr fd1)
    with Cons.prems Cons.IH [of "Suc i" fd1] obtain m t1 where
      m: "map_of fd1 m = Some t1" "DataTypeMap X (target_type t1) = Some BinaryVector"
      by auto
    from encode_row_back [OF Inr m(1)] m(2) show ?thesis by metis
  qed
qed

lemma wire_fields_errors:
  "wire_fields X ts = Inl e \<Longrightarrow> \<exists>s. e = INSERT_CHECK_WRONG_DATA_TYPE s"
  by (induction ts) (auto simp: wire_field_of_def split: sum.splits option.splits)

lemma wrong_dim_insert:
  assumes "insert_rows X info rows = Inl INSERT_CHECK_WRONG_DIM"
  shows "\<exists>f \<in> set (schema_fields info). DataTypeMap X (data_type f) = Some BinaryVector"
proof -
  from assms have "encode_rows X rows 0 (fieldsData_of X (schema_fields info))
      = Inl INSERT_CHECK_WRONG_DIM"
    by (auto simp: insert_rows_def split: if_splits sum.splits dest: wire_fields_errors)
  from wrong_dim_rows [OF this] obtain n t where
    "map_of (fieldsData_of X (schema_fields info)) n = Some t"
    "DataTypeMap X (target_type t) = Some BinaryVector"
    by blast
  with fieldsData_of_range [of X "schema_fields info" n t] show ?thesis
    by (auto simp: new_target_def)
qed

text \<open>
  Claim C10. A float vector value is never length-checked: whatever its length, its
  elements are appended to the flat column, and the dimension error is thrown for
  binary vector fields only.
\<close>

theorem float_vector_not_length_checked:
  assumes "map_of fd k = Some t" and "DataTypeMap X (target_type t) = Some FloatVector"
  shows "encode_field X v i fd k \<noteq> Inl INSERT_CHECK_WRONG_DIM
       \<and> (\<forall>xs. get_prop v k = JArray xs \<longrightarrow>
            encode_field X v i fd k
              = Inr (assign fd k (t\<lparr>target_value := target_value t @ map Some xs\<rparr>)))
       \<and> (\<forall>v' i' n. encode_field X v' i' fd n = Inl INSERT_CHECK_WRONG_DIM \<longrightarrow>
            (\<exists>t'. map_of fd n = Some t' \<and> DataTypeMap X (target_type t') = Some BinaryVector))
       \<and> (\<forall>info rows. insert_rows X info rows = Inl INSERT_CHECK_WRONG_DIM \<longrightarrow>
            (\<exists>f \<in> set (schema_fields info). DataTypeMap X (data_type f) = Some BinaryVector))"
proof -
  from assms wrong_dim_field [of X v i fd k]
  have 1: "encode_field X v i fd k \<noteq> Inl INSERT_CHECK_WRONG_DIM"
    by auto
  from assms have 2: "\<forall>xs. get_prop v k = JArray xs \<longrightarrow>
            encode_field X v i fd k
              = Inr (assign fd k (t\<lparr>target_value := target_value t @ map Some xs\<rparr>))"
    by (simp add: encode_field_def check_dim_def encode_value_def)
  from 1 2 wrong_dim_field [of X _ _ fd] wrong_dim_insert [of X] show ?thesis
    by blast
qed

theorem float_vector_not_length_checked_witness:
  "encode_field sample_externals [(''vec'', JArray [JNumber (Fin 1), JNumber (Fin 2)])] 0
     (fieldsData_of sample_externals (schema_fields float_collection)) ''vec''
   = Inr [(''vec'', \<lparr>target_name = ''vec'', target_type = ''FloatVector'', target_dim = Fin 4,
                      target_value = [Some (JNumber (Fin 1)), Some (JNumber (Fin 2))]\<rparr>)]"
proof -
  let ?fd = "fieldsData_of sample_externals (schema_fields float_collection)"
  let ?t = "\<lparr>target_name = ''vec'', target_type = ''FloatVector'', target_dim = Fin 4,
             target_value = []\<rparr>"
  have fd: "?fd = [(''vec'', ?t)]"
    by code_simp
  have 1: "map_of ?fd ''vec'' = Some ?t"
    by (simp add: fd)
  have 2: "DataTypeMap sample_externals (target_type ?t) = Some FloatVector"
    by code_simp
  have 3: "get_prop [(''vec'', JArray [JNumber (Fin 1), JNumber (Fin 2)])] ''vec''
             = JArray [JNumber (Fin 1), JNumber (Fin 2)]"
    by (simp add: get_prop_def)
  from float_vector_not_length_checked [OF 1 2,
      of "[(''vec'', JArray [JNumber (Fin 1), JNumber (Fin 2)])]" 0] 3
  have "encode_field sample_externals [(''vec'', JArray [JNumber (Fin 1), JNumber (Fin 2)])] 0
          ?fd ''vec''
        = Inr (assign ?fd ''vec''
            (?t\<lparr>target_value := target_value ?t @ map Some [JNumber (Fin 1), JNumber (Fin 2)]\<rparr>))"
    by blast
  then show ?thesis
    by (simp add: fd)
qed

text \<open>
  Claim C4, as amended. Schema resolution for insert raises no error for a field without
  a \<open>dim\<close> parameter: the field is resolved with the dimension \<^verbatim>\<open>NaN\<close>
  (\<^verbatim>\<open>Number(undefined)\<close>) and encoding goes on with it. A float vector value of such a
  field is appended to its column as usual; a binary vector value that has a length
  fails the length check with the dimension error, \<^verbatim>\<open>NaN\<close> being unequal to every length.
\<close>

theorem missing_dim_resolves_to_NaN:
  assumes "distinct (map name schema)" and "f \<in> set schema"
    and "\<not> is_primary_key f \<or> \<not> autoID f"
    and "findKeyValue (type_params f) ''dim'' = None"
  shows "map_of (fieldsData_of X schema) (name f)
           = Some \<lparr>target_name = name f, target_type = data_type f, target_dim = NaN,
                   target_value = []\<rparr>
       \<and> (DataTypeMap X (data_type f) = Some FloatVector \<longrightarrow>
            (\<forall>v i xs. get_prop v (name f) = JArray xs \<longrightarrow>
               encode_field X v i (fieldsData_of X schema) (name f)
                 = Inr (assign (fieldsData_of X schema) (name f)
                     \<lparr>target_name = name f, target_type = data_type f, target_dim = NaN,
                       target_value = map Some xs\<rparr>)))
       \<and> (DataTypeMap X (data_type f) = Some BinaryVector \<longrightarrow>
            (\<forall>v i len. js_length (get_prop v (name f)) = Inr len \<longrightarrow>
               encode_field X v i (fieldsData_of X schema) (name f)
                 = Inl INSERT_CHECK_WRONG_DIM))"
proof -
  let ?t = "\<lparr>target_name = name f, target_type = data_type f, target_dim = NaN,
             target_value = []\<rparr>"
  from assms have t: "map_of (fieldsData_of X schema) (name f) = Some ?t"
    by (simp add: fieldsData_of_lookup new_target_def Number_def)
  have ne: "strict_ne len NaN" for len
    by (cases len) simp_all
  from t ne show ?thesis
    by (simp add: encode_field_def check_dim_def encode_value_def)
qed

theorem missing_dim_resolves_to_NaN_witness:
  "map_of (fieldsData_of sample_externals (schema_fields float_collection_no_dim)) ''vec''
     = Some \<lparr>target_name = ''vec'', target_type = ''FloatVector'', target_dim = NaN,
             target_value = []\<rparr>"
proof -
  let ?f = "sample_field ''vec'' ''FloatVector'' []"
  have s: "schema_fields float_collection_no_dim = [?f]"
    by (simp add: float_collection_no_dim_def collection_of_def)
  have 1: "distinct (map name [?f])" by simp
  have 2: "?f \<in> set [?f]" by simp
  have 3: "\<not> is_primary_key ?f \<or> \<not> autoID ?f" by (simp add: sample_field_def)
  have 4: "findKeyValue (type_params ?f) ''dim'' = None"
    by (simp add: sample_field_def findKeyValue_def)
  from missing_dim_resolves_to_NaN [OF 1 2 3 4, of sample_externals] show ?thesis
    by (simp add: s sample_field_def)
qed

text \<open>
  The claim as stated fails on a collection whose float vector field has no \<open>dim\<close>
  parameter: no error is raised, and the \<^verbatim>\<open>Insert\<close> call is made with the dimension \<^verbatim>\<open>NaN\<close>.
\<close>

theorem missing_dim_counterexample:
  "findKeyValue (type_params (sample_field ''vec'' ''FloatVector'' [])) ''dim'' = None
   \<and> insert_rows sample_externals float_collection_no_dim
       [[(''vec'', JArray [JNumber (Fin 1), JNumber (Fin 2)])]]
     = Inr \<lparr>num_rows = 1,
            fields_data =
              [\<lparr>wire_type = Some FloatVector, wire_field_name = ''vec'',
                wire_payload =
                  float_vector NaN [Some (JNumber (Fin 1)), Some (JNumber (Fin 2))]\<rparr>]\<rparr>"
  by code_simp

section \<open>JSON columns of an insert\<close>

lemma json_field_step:
  assumes "encode_field X v i fd n = Inr fd'" and "map_of fd k = Some t"
    and "DataTypeMap X (target_type t) = Some JSON"
  shows "\<exists>t'. map_of fd' k = Some t' \<and> target_type t' = target_type t
           \<and> target_name t' = target_name t
           \<and> (\<forall>j. slot (target_value t') j =
                 (if n = k \<and> j = i
                  then Some (JBuffer (JSON_stringify X (js_or (get_prop v k) (JObject []))))
                  else slot (target_value t) j))"
proof (cases "k = n")
  case True
  from encode_field_Inr [OF assms(1)] obtain t0 t1 where
    *: "map_of fd n = Some t0" "encode_value X t0 i (get_prop v n) = Inr t1"
       "fd' = assign fd n t1"
    by blast
  with True assms(2) have "t0 = t" by simp
  with * assms(3) have "t1 = t\<lparr>target_value :=
      set_index (target_value t) i (JBuffer (JSON_stringify X (js_or (get_prop v n) (JObject []))))\<rparr>"
    by (simp add: encode_value_def)
  with * True show ?thesis
    by (simp add: map_of_assign slot_set_index)
next
  case False
  with assms show ?thesis
    by (simp add: encode_field_other)
qed

lemma json_row_step:
  "encode_row X v i ns fd = Inr fd' \<Longrightarrow> map_of fd k = Some t
    \<Longrightarrow> DataTypeMap X (target_type t) = Some JSON
    \<Longrightarrow> \<exists>t'. map_of fd' k = Some t' \<and> target_type t' = target_type t
           \<and> target_name t' = target_name t
           \<and> (\<forall>j. slot (target_value t') j =
                 (if k \<in> set ns \<and> j = i
                  then Some (JBuffer (JSON_stringify X (js_or (get_prop v k) (JObject []))))
                  else slot (target_value t) j))"
proof (induction ns arbitrary: fd t)
  case Nil
  then show ?case by simp
next
  case (Cons n ns)
  from Cons.prems(1) obtain fd1 where 1: "encode_field X v i fd n = Inr fd1"
    and 2: "encode_row X v i ns fd1 = Inr fd'"
    by (auto split: sum.splits)
  from json_field_step [OF 1 Cons.prems(2,3)] obtain t1 where
    t1: "map_of fd1 k = Some t1" "target_type t1 = target_type t"
      "target_name t1 = target_name t"
      "\<And>j. slot (target_value t1) j =
                 (if n = k \<and> j = i
                  then Some (JBuffer (JSON_stringify X (js_or (get_prop v k) (JObject []))))
                  else slot (target_value t) j)"
    by blast
  from t1(2) Cons.prems(3) have "DataTypeMap X (target_type t1) = Some JSON" by simp
  from Cons.IH [OF 2 t1(1) this] obtain t' where
    t': "map_of fd' k = Some t'" "target_type t' = target_type t1"
      "target_name t' = target_name t1"
      "\<And>j. slot (target_value t') j =
                 (if k \<in> set ns \<and> j = i
                  then Some (JBuffer (JSON_stringify X (js_or (get_prop v k) (JObject []))))
                  else slot (target_value t1) j)"
    by blast
  from t1 t' show ?case
    by auto
qed

lemma json_rows_step:
  "encode_rows X rows i fd = Inr fd' \<Longrightarrow> map_of fd k = Some t
    \<Longrightarrow> DataTypeMap X (target_type t) = Some JSON
    \<Longrightarrow> \<exists>t'. map_of fd' k = Some t' \<and> target_type t' = target_type t
           \<and> target_name t' = target_name t
           \<and> (\<forall>j. slot (target_value t') j =
                 (if i \<le> j \<and> j < i + length rows \<and> k \<in> fst ` set (rows ! (j - i))
                  then Some (JBuffer (JSON_stringify X
                         (js_or (get_prop (rows ! (j - i)) k) (JObject []))))
                  else slot (target_value t) j))"
proof (induction rows arbitrary: i fd t)
  case Nil
  then show ?case by auto
next
  case (Cons v rows)
  from Cons.prems(1) obtain fd1 where 1: "encode_row X v i (map fst v) fd = Inr fd1"
    and 2: "encode_rows X rows (Suc i) fd1 = Inr fd'"
    by (auto split: sum.splits)
  from json_row_step [OF 1 Cons.prems(2,3)] obtain t1 where
    t1: "map_of fd1 k = Some t1" "target_type t1 = target_type t"
      "target_name t1 = target_name t"
      "\<And>j. slot (target_value t1) j =
                 (if k \<in> set (map fst v) \<and> j = i
                  then Some (JBuffer (JSON_stringify X (js_or (get_prop v k) (JObject []))))
                  else slot (target_value t) j)"
    by blast
  from t1(2) Cons.prems(3) have "DataTypeMap X (target_type t1) = Some JSON" by simp
  from Cons.IH [OF 2 t1(1) this] obtain t' where
    t': "map_of fd' k = Some t'" "target_type t' = target_type t1"
      "target_name t' = target_name t1"
      "\<And>j. slot (target_value t') j =
                 (if Suc i \<le> j \<and> j < Suc i + length rows \<and> k \<in> fst ` set (rows ! (j - Suc i))
                  then Some (JBuffer (JSON_stringify X
                         (js_or (get_prop (rows ! (j - Suc i)) k) (JObject []))))
                  else slot (target_value t1) j)"
    by blast
  have "slot (target_value t') j =
                 (if i \<le> j \<and> j < i + length (v # rows) \<and> k \<in> fst ` set ((v # rows) ! (j - i))
                  then Some (JBuffer (JSON_stringify X
                         (js_or (get_prop ((v # rows) ! (j - i)) k) (JObject []))))
                  else slot (target_value t) j)" for j
  proof (cases "j = i")
    case True
    then show ?thesis by (simp add: t'(4) t1(4))
  next
    case False
    show ?thesis
    proof (cases "i < j")
      case True
      then obtain d where "j = Suc i + d" by (metis less_imp_Suc_add add_Suc)
      then show ?thesis by (simp add: t'(4) t1(4))
    next
      case False
      with \<open>j \<noteq> i\<close> have "j < i" by simp
      then show ?thesis by (simp add: t'(4) t1(4))
    qed
  qed
  with t1 t' show ?case
    by auto
qed

lemma wire_fields_member:
  "wire_fields X ts = Inr ws \<Longrightarrow> t \<in> set ts \<Longrightarrow> \<exists>w \<in> set ws. wire_field_of X t = Inr w"
  by (induction ts arbitrary: ws) (auto split: sum.splits)

lemma insert_Inr:
  "insert_rows X info rows = Inr p \<Longrightarrow>
   \<exists>fd. encode_rows X rows 0 (fieldsData_of X (schema_fields info)) = Inr fd
     \<and> wire_fields X (map snd fd) = Inr (fields_data p) \<and> num_rows p = length rows"
  by (auto simp: insert_rows_def split: if_splits sum.splits)

lemma json_column:
  assumes "insert_rows X info rows = Inr p"
    and "map_of (fieldsData_of X (schema_fields info)) k = Some t0"
    and "DataTypeMap X (target_type t0) = Some JSON"
  shows "\<exists>col. \<lparr>wire_type = Some JSON, wire_field_name = target_name t0,
                 wire_payload = scalars ''json_data'' col\<rparr> \<in> set (fields_data p)
           \<and> (\<forall>j. slot col j =
                 (if j < length rows \<and> k \<in> fst ` set (rows ! j)
                  then Some (JBuffer (JSON_stringify X
                         (js_or (get_prop (rows ! j) k) (JObject []))))
                  else slot (target_value t0) j))"
proof -
  from insert_Inr [OF assms(1)] obtain fd where
    fd: "encode_rows X rows 0 (fieldsData_of X (schema_fields info)) = Inr fd"
    and ws: "wire_fields X (map snd fd) = Inr (fields_data p)"
    by blast
  from json_rows_step [OF fd assms(2,3)] obtain t where
    t: "map_of fd k = Some t" "target_type t = target_type t0" "target_name t = target_name t0"
      "\<And>j. slot (target_value t) j =
                 (if j < length rows \<and> k \<in> fst ` set (rows ! j)
                  then Some (JBuffer (JSON_stringify X
                         (js_or (get_prop (rows ! j) k) (JObject []))))
                  else slot (target_value t0) j)"
    by auto
  from t(1) have "t \<in> set (map snd fd)"
    by (auto dest!: map_of_SomeD simp: image_iff intro: bexI [of _ "(k, t)"])
  from wire_fields_member [OF ws this] obtain w where
    w: "w \<in> set (fields_data p)" "wire_field_of X t = Inr w"
    by blast
  from w(2) t(2,3) assms(3) have "w = \<lparr>wire_type = Some JSON, wire_field_name = target_name t0,
                 wire_payload = scalars ''json_data'' (target_value t)\<rparr>"
    by (simp add: wire_field_of_def)
  with w(1) t(4) show ?thesis
    by blast
qed

text \<open>A row without the key leaves the entry of a JSON column unset: a hole, or past the end.\<close>

lemma json_column_hole:
  assumes "insert_rows X info rows = Inr p"
    and "map_of (fieldsData_of X (schema_fields info)) k = Some t0"
    and "DataTypeMap X (target_type t0) = Some JSON"
    and "j < length rows" and "k \<notin> fst ` set (rows ! j)"
  shows "\<exists>col. \<lparr>wire_type = Some JSON, wire_field_name = target_name t0,
                 wire_payload = scalars ''json_data'' col\<rparr> \<in> set (fields_data p)
           \<and> slot col j = None"
proof -
  from fieldsData_of_range [OF assms(2)] have "target_value t0 = []"
    by (auto simp: new_target_def)
  then have empty: "slot (target_value t0) j = None"
    by (simp add: slot_def)
  from json_column [OF assms(1-3)] obtain col where
    col: "\<lparr>wire_type = Some JSON, wire_field_name = target_name t0,
                 wire_payload = scalars ''json_data'' col\<rparr> \<in> set (fields_data p)"
    and slots: "\<And>j. slot col j =
                 (if j < length rows \<and> k \<in> fst ` set (rows ! j)
                  then Some (JBuffer (JSON_stringify X
                         (js_or (get_prop (rows ! j) k) (JObject []))))
                  else slot (target_value t0) j)"
    by blast
  from slots [of j] assms(5) empty have "slot col j = None"
    by simp
  with col show ?thesis
    by blast
qed

text \<open>
  Claim C8, as amended. For every insert row that has a key for a JSON-typed field, the
  entry of the field's column at the row's index is the byte buffer of the JSON
  serialization of the row's value when that value is truthy, and of the empty object
  \<^verbatim>\<open>{}\<close> when it is falsy (\<^verbatim>\<open>undefined\<close>, \<^verbatim>\<open>null\<close>, \<^verbatim>\<open>false\<close>, \<^verbatim>\<open>0\<close>, \<^verbatim>\<open>NaN\<close>, the empty string).
\<close>

theorem json_column_entry:
  assumes "insert_rows X info rows = Inr p"
    and "map_of (fieldsData_of X (schema_fields info)) k = Some t0"
    and "DataTypeMap X (target_type t0) = Some JSON"
    and "j < length rows" and "k \<in> fst ` set (rows ! j)"
  shows "\<exists>col. \<lparr>wire_type = Some JSON, wire_field_name = target_name t0,
                 wire_payload = scalars ''json_data'' col\<rparr> \<in> set (fields_data p)
           \<and> slot col j =
               Some (JBuffer (JSON_stringify X
                 (if truthy (get_prop (rows ! j) k) then get_prop (rows ! j) k
                  else JObject [])))"
proof -
  from json_column [OF assms(1-3)] obtain col where
    col: "\<lparr>wire_type = Some JSON, wire_field_name = target_name t0,
                 wire_payload = scalars ''json_data'' col\<rparr> \<in> set (fields_data p)"
    and slots: "\<And>j. slot col j =
                 (if j < length rows \<and> k \<in> fst ` set (rows ! j)
                  then Some (JBuffer (JSON_stringify X
                         (js_or (get_prop (rows ! j) k) (JObject []))))
                  else slot (target_value t0) j)"
    by blast
  from slots [of j] assms(4,5) have "slot col j =
               Some (JBuffer (JSON_stringify X
                 (if truthy (get_prop (rows ! j) k) then get_prop (rows ! j) k
                  else JObject [])))"
    by (simp add: js_or_def)
  with col show ?thesis
    by blast
qed

theorem json_column_entry_witness:
  "\<exists>col. \<lparr>wire_type = Some JSON, wire_field_name = ''meta'',
            wire_payload = scalars ''json_data'' col\<rparr>
          \<in> set [\<lparr>wire_type = Some Int64, wire_field_name = ''id'',
                    wire_payload = scalars ''long_data'' [Some (JNumber (Fin 1))]\<rparr>,
                  \<lparr>wire_type = Some JSON, wire_field_name = ''meta'',
                    wire_payload = scalars ''json_data'' [Some (JBuffer ''true'')]\<rparr>]
      \<and> slot col 0 = Some (JBuffer ''true'')"
proof -
  let ?rows = "[[(''id'', JNumber (Fin 1)), (''meta'', JBool True)]]"
  let ?t = "\<lparr>target_name = ''meta'', target_type = ''JSON'', target_dim = NaN,
             target_value = []\<rparr>"
  have 1: "insert_rows sample_externals json_collection ?rows
      = Inr \<lparr>num_rows = 1,
             fields_data =
               [\<lparr>wire_type = Some Int64, wire_field_name = ''id'',
                  wire_payload = scalars ''long_data'' [Some (JNumber (Fin 1))]\<rparr>,
                \<lparr>wire_type = Some JSON, wire_field_name = ''meta'',
                  wire_payload = scalars ''json_data'' [Some (JBuffer ''true'')]\<rparr>]\<rparr>"
    by code_simp
  have 2: "map_of (fieldsData_of sample_externals (schema_fields json_collection)) ''meta''
      = Some ?t"
    by code_simp
  have 3: "DataTypeMap sample_externals (target_type ?t) = Some JSON"
    by code_simp
  have 4: "0 < length ?rows" by simp
  have 5: "''meta'' \<in> fst ` set (?rows ! 0)" by simp
  have 6: "JSON_stringify sample_externals (JBool True) = ''true''"
    by (simp add: sample_externals_def)
  from json_column_entry [OF 1 2 3 4 5] show ?thesis
    by (simp add: get_prop_def 6)
qed

text \<open>
  The claim as stated fails twice on a collection with a JSON field \<open>meta\<close>: the first row
  has no value for the field, and its entry is a hole, not the buffer of \<^verbatim>\<open>{}\<close>; the second
  row holds \<^verbatim>\<open>false\<close>, whose serialization is \<^verbatim>\<open>false\<close>, and its entry is the buffer of \<^verbatim>\<open>{}\<close>.
\<close>

theorem json_column_entry_counterexample:
  "insert_rows sample_externals json_collection
     [[(''id'', JNumber (Fin 1))], [(''id'', JNumber (Fin 2)), (''meta'', JBool False)]]
     = Inr \<lparr>num_rows = 2,
            fields_data =
              [\<lparr>wire_type = Some Int64, wire_field_name = ''id'',
                 wire_payload =
                   scalars ''long_data'' [Some (JNumber (Fin 1)), Some (JNumber (Fin 2))]\<rparr>,
               \<lparr>wire_type = Some JSON, wire_field_name = ''meta'',
                 wire_payload = scalars ''json_data'' [None, Some (JBuffer ''{}'')]\<rparr>]\<rparr>
   \<and> JSON_stringify sample_externals (JBool False) = ''false''
   \<and> JSON_stringify sample_externals (JObject []) = ''{}''"
  by code_simp

section \<open>Properties of the query decoder\<close>

declare slices.simps [simp del]

lemma slices_empty: "slices d [] = []"
  by (simp add: slices.simps)

lemma slices_unfold: "0 < d \<Longrightarrow> xs \<noteq> [] \<Longrightarrow> slices d xs = take d xs # slices d (drop d xs)"
  by (subst slices.simps) simp

lemma slices_short: "0 < d \<Longrightarrow> xs \<noteq> [] \<Longrightarrow> length xs \<le> d \<Longrightarrow> slices d xs = [xs]"
  by (simp add: slices_unfold slices_empty)

lemma concat_slices: "0 < d \<Longrightarrow> concat (slices d xs) = xs"
proof (induction d xs rule: slices.induct)
  case (1 d xs)
  then show ?case
    by (cases "xs = []") (simp_all add: slices_empty slices_unfold)
qed

lemma slices_rows: "0 < d \<Longrightarrow> r \<in> set (slices d xs) \<Longrightarrow> r \<noteq> [] \<and> length r \<le> d"
proof (induction d xs rule: slices.induct)
  case (1 d xs)
  then show ?case
    by (cases "xs = []") (auto simp: slices_empty slices_unfold)
qed

lemma slices_full_rows: "0 < d \<Longrightarrow> r \<in> set (butlast (slices d xs)) \<Longrightarrow> length r = d"
proof (induction d xs rule: slices.induct)
  case (1 d xs)
  show ?case
  proof (cases "xs = []")
    case True
    with "1.prems" show ?thesis by (simp add: slices_empty)
  next
    case False
    show ?thesis
    proof (cases "drop d xs = []")
      case True
      with False "1.prems" show ?thesis
        by (simp add: slices_unfold slices_empty)
    next
      case rest: False
      then have "slices d (drop d xs) \<noteq> []"
        using "1.prems"(1) by (simp add: slices_unfold)
      with False rest "1.prems" "1.IH" show ?thesis
        by (auto simp: slices_unfold)
    qed
  qed
qed

lemma slices_all_full:
  assumes "0 < d" and "d dvd length xs" and "r \<in> set (slices d xs)"
  shows "length r = d"
  using assms
proof (induction d xs rule: slices.induct)
  case (1 d xs)
  show ?case
  proof (cases "xs = []")
    case True
    with "1.prems" show ?thesis by (simp add: slices_empty)
  next
    case False
    with "1.prems"(1,2) have le: "d \<le> length xs"
      by (simp add: dvd_imp_le)
    with "1.prems"(2) have "d dvd length (drop d xs)"
      by (simp add: dvd_diff_nat)
    with False le "1.prems" "1.IH" show ?thesis
      by (auto simp: slices_unfold)
  qed
qed

lemma push_at_Cons_Suc:
  "push_at (a # data) (Some (int (Suc m))) v = a # push_at data (Some (int m)) v"
  by (simp add: push_at_def slot_def set_index_def nat_add_distrib split: option.splits)

lemma push_at_slices:
  "0 < d \<Longrightarrow>
   push_at (map Some (slices d p)) (Some (int (length p div d))) v = map Some (slices d (p @ [v]))"
proof (induction d p rule: slices.induct)
  case (1 d p)
  show ?case
  proof (cases "p = []")
    case True
    with "1.prems" show ?thesis
      by (simp add: slices_empty slices_short push_at_def slot_def set_index_def)
  next
    case False
    show ?thesis
    proof (cases "length p < d")
      case True
      with False "1.prems" show ?thesis
        by (simp add: slices_short push_at_def slot_def)
    next
      case long: False
      then have le: "d \<le> length p" by simp
      with "1.prems" have idx: "length p div d = Suc ((length p - d) div d)"
        by (simp add: le_div_geq)
      from "1.IH" False "1.prems"
      have ih: "push_at (map Some (slices d (drop d p))) (Some (int ((length p - d) div d))) v
           = map Some (slices d (drop d p @ [v]))"
        by simp
      from False "1.prems" have l: "slices d p = take d p # slices d (drop d p)"
        by (simp add: slices_unfold)
      from le "1.prems" have r: "slices d (p @ [v]) = take d p # slices d (drop d p @ [v])"
        by (simp add: slices_unfold)
      show ?thesis
        by (simp only: l r idx list.map push_at_Cons_Suc ih)
    qed
  qed
qed

lemma row_index_nat: "0 < d \<Longrightarrow> row_index i (of_nat d) = Some (int (i div d))"
  by (simp add: row_index_def floor_divide_of_nat_eq)

lemma unflatten_slices:
  "0 < d \<Longrightarrow>
   unflatten (of_nat d) vs (length p) (map Some (slices d p)) = map Some (slices d (p @ vs))"
proof (induction vs arbitrary: p)
  case Nil
  then show ?case by simp
next
  case (Cons v vs)
  from Cons.IH [of "p @ [v]"] Cons.prems show ?case
    by (simp add: row_index_nat push_at_slices)
qed

lemma row_length_nat:
  assumes "0 < vec_dim c" and "vec_key c \<noteq> ''float_vector'' \<Longrightarrow> 8 dvd vec_dim c"
  shows "row_length c
     = of_nat (if vec_key c = ''float_vector'' then nat (vec_dim c) else nat (vec_dim c) div 8)"
proof (cases "vec_key c = ''float_vector''")
  case True
  with assms(1) show ?thesis by (simp add: row_length_def)
next
  case False
  with assms(2) obtain m where m: "vec_dim c = 8 * m" by (auto simp: dvd_def)
  with assms(1) have "0 < m" by simp
  with m False show ?thesis
    by (simp add: row_length_def nat_mult_distrib)
qed

text \<open>
  Claim C9. A vector column of a query response with a positive dimension (a multiple of
  8 for a binary column) is un-flattened into consecutive rows of \<open>d\<close> elements, \<open>d\<close> the
  dimension of a float column and an eighth of it for a binary one, in order: the rows
  are the slices of the flat array, they concatenate to it, and every row is full when
  the length of the array is a multiple of \<open>d\<close>. The flat array 1 to 8 with dimension 4
  decodes to the rows 1 to 4 and 5 to 8.
\<close>

theorem query_vectors_unflattened:
  assumes "0 < vec_dim c" and "vec_key c \<noteq> ''float_vector'' \<Longrightarrow> 8 dvd vec_dim c"
    and "d = (if vec_key c = ''float_vector'' then nat (vec_dim c) else nat (vec_dim c) div 8)"
  shows "decode_vectors c = map Some (slices d (vec_values c))
       \<and> concat (slices d (vec_values c)) = vec_values c
       \<and> (\<forall>r \<in> set (butlast (slices d (vec_values c))). length r = d)
       \<and> (\<forall>r \<in> set (slices d (vec_values c)). r \<noteq> [] \<and> length r \<le> d)
       \<and> (d dvd length (vec_values c) \<longrightarrow> (\<forall>r \<in> set (slices d (vec_values c)). length r = d))
       \<and> decode_vectors \<lparr>vec_dim = 4, vec_key = ''float_vector'',
            vec_values = map js_nat [1, 2, 3, 4, 5, 6, 7, 8]\<rparr>
           = [Some (map js_nat [1, 2, 3, 4]), Some (map js_nat [5, 6, 7, 8])]"
proof -
  have pos: "0 < d"
  proof (cases "vec_key c = ''float_vector''")
    case True
    with assms(1,3) show ?thesis by simp
  next
    case False
    with assms(2) obtain m where "vec_dim c = 8 * m" by (auto simp: dvd_def)
    with assms(1,3) False show ?thesis by (simp add: nat_mult_distrib)
  qed
  from row_length_nat [OF assms(1,2)] assms(3) have "row_length c = of_nat d"
    by simp
  with unflatten_slices [OF pos, of "vec_values c" "[]"]
  have 1: "decode_vectors c = map Some (slices d (vec_values c))"
    by (simp add: decode_vectors_def slices_empty)
  have 2: "decode_vectors \<lparr>vec_dim = 4, vec_key = ''float_vector'',
            vec_values = map js_nat [1, 2, 3, 4, 5, 6, 7, 8]\<rparr>
           = [Some (map js_nat [1, 2, 3, 4]), Some (map js_nat [5, 6, 7, 8])]"
    by code_simp
  from 1 2 pos show ?thesis
    by (auto simp: concat_slices slices_full_rows slices_all_full dest: slices_rows)
qed

theorem query_vectors_unflattened_witness:
  "decode_vectors \<lparr>vec_dim = 16, vec_key = ''binary_vector'',
      vec_values = [js_nat 1, js_nat 2, js_nat 3, js_nat 4, js_nat 5, js_nat 6]\<rparr>
     = [Some [js_nat 1, js_nat 2], Some [js_nat 3, js_nat 4], Some [js_nat 5, js_nat 6]]"
proof -
  let ?xs = "[js_nat 1, js_nat 2, js_nat 3, js_nat 4, js_nat 5, js_nat 6]"
  let ?c = "\<lparr>vec_dim = 16, vec_key = ''binary_vector'', vec_values = ?xs\<rparr>"
  have rows: "slices 2 ?xs = [[js_nat 1, js_nat 2], [js_nat 3, js_nat 4], [js_nat 5, js_nat 6]]"
    by (simp add: slices_unfold slices_empty)
  from query_vectors_unflattened [of ?c 2]
  have "decode_vectors ?c = map Some (slices 2 ?xs)"
    by simp
  then show ?thesis
    by (simp only: rows list.map)
qed

end
